theory Spec2Isabelle
  imports Main "HOL-Library.Sublist" "HOL-Library.AList"
begin

section \<open>Strings and the two regular expressions of convertToGitUrl\<close>

text \<open>
  A JavaScript string is modelled as a \<open>string\<close>, a list of 8-bit characters: the model
  covers the strings whose code units are below 256. In that range the line terminators,
  which the regular expression atom \<open>.\<close> refuses, are LF and CR (U+2028 and U+2029 lie
  outside it).
\<close>

definition isLineTerminator :: "char \<Rightarrow> bool" where
  "isLineTerminator c = (c = CHR 0x0A \<or> c = CHR 0x0D)"

text \<open>The character class \<open>[0-9a-f]\<close>.\<close>

definition isHexDigit :: "char \<Rightarrow> bool" where
  "isHexDigit c = (c \<in> set ''0123456789abcdef'')"

text \<open>
  The pieces of a backtracking matcher, each taking the continuation that matches the
  rest of the pattern: a literal, the atom \<open>.\<close>, a greedy optional character, the lazy
  capture \<open>(.+?)\<close> and the capture \<open>([0-9a-f]{40})\<close>. A lazy capture tries the shortest
  text first and grows by one character each time the continuation fails, as the
  backtracking of the JavaScript engine does.
\<close>

definition lit :: "string \<Rightarrow> (string \<Rightarrow> 'a option) \<Rightarrow> string \<Rightarrow> 'a option" where
  "lit p k s = (if prefix p s then k (drop (length p) s) else None)"

definition dot :: "(string \<Rightarrow> 'a option) \<Rightarrow> string \<Rightarrow> 'a option" where
  "dot k s = (case s of [] \<Rightarrow> None | c # r \<Rightarrow> if isLineTerminator c then None else k r)"

definition opt :: "char \<Rightarrow> (string \<Rightarrow> 'a option) \<Rightarrow> string \<Rightarrow> 'a option" where
  "opt c k s =
     (case s of
        [] \<Rightarrow> k s
      | d # r \<Rightarrow>
          if d = c then (case k r of Some m \<Rightarrow> Some m | None \<Rightarrow> k s) else k s)"

fun lazyPlus :: "(string \<Rightarrow> string \<Rightarrow> 'a option) \<Rightarrow> string \<Rightarrow> string \<Rightarrow> 'a option" where
  "lazyPlus k acc [] = None"
| "lazyPlus k acc (c # r) =
     (if isLineTerminator c then None
      else (case k (acc @ [c]) r of
              Some m \<Rightarrow> Some m
            | None \<Rightarrow> lazyPlus k (acc @ [c]) r))"

definition hex40 :: "(string \<Rightarrow> string \<Rightarrow> 'a option) \<Rightarrow> string \<Rightarrow> 'a option" where
  "hex40 k s =
     (if 40 \<le> length s \<and> list_all isHexDigit (take 40 s) then k (take 40 s) (drop 40 s)
      else None)"

text \<open>
  \<^verbatim>\<open>url.match(/^https?:\/\/github.com\/(.+?)\/(.+?)\/tarball\/([0-9a-f]{40})/)\<close>:
  the three captured groups of the first match in backtracking order, or \<open>None\<close>. The dot
  of \<open>github.com\<close> is not escaped in the source and matches any character.
\<close>

definition matchTarballUrl :: "string \<Rightarrow> (string \<times> string \<times> string) option" where
  "matchTarballUrl url =
     lit ''http'' (opt CHR ''s'' (lit ''://github'' (dot (lit ''com/''
       (lazyPlus (\<lambda>organization. lit ''/''
          (lazyPlus (\<lambda>repository. lit ''/tarball/''
             (hex40 (\<lambda>sha rest. Some (organization, repository, sha)))) [])) []))))) url"

text \<open>\<^verbatim>\<open>/\.git/.test(url)\<close>: the pattern is tried at every position of the string.\<close>

fun testDotGit :: "string \<Rightarrow> bool" where
  "testDotGit [] = False"
| "testDotGit (c # r) = (prefix ''.git'' (c # r) \<or> testDotGit r)"

section \<open>Errors\<close>

text \<open>
  What the code throws: the toolchain's \<open>CordovaError\<close>, the tool's \<open>main.ExitWithCode\<close>,
  and a plain \<open>Error\<close> with its message.
\<close>

datatype exn = CordovaError string | ExitWithCode int | Error string

definition tarballMessage :: string where
  "tarballMessage = ''Meteor no longer supports installing Cordova plugins '' @
     ''from tarball URLs. Cordova requires a Git URL to install from.''"

section \<open>Version specifiers\<close>

definition convertToGitUrl :: "string \<Rightarrow> exn + string" where
  "convertToGitUrl url =
     (case matchTarballUrl url of
        Some (organization, repository, sha) \<Rightarrow>
          Inr (''https://github.com/'' @ organization @ ''/'' @ repository @ ''.git#'' @ sha)
      | None \<Rightarrow> if testDotGit url then Inr url else Inl (Error tarballMessage))"

text \<open>
  The object the methods run on, with the names they take from modules that are not part
  of this development: the predicates of \<open>utils\<close> on version specifiers and paths, the path
  arithmetic of \<open>path\<close> and \<open>files\<close>, \<open>Console.verbose\<close>, the environment that
  \<open>defaultEnvWithPathsAdded()\<close> builds, and the constant \<open>AVAILABLE_PLATFORMS\<close>. They are
  parameters: every theorem below holds for any choice of them.
\<close>

type_synonym env = "(string \<times> string) list"

record cordovaProject =
  projectRoot :: string
  projectDir :: string
  isUrlWithSha :: "string \<Rightarrow> bool"
  isUrlWithFileScheme :: "string \<Rightarrow> bool"
  isPathRelative :: "string \<Rightarrow> bool"
  pathRelative :: "string \<Rightarrow> string \<Rightarrow> string"
  pathResolve :: "string \<Rightarrow> string \<Rightarrow> string"
  convertToOSPath :: "string \<Rightarrow> string"
  consoleVerbose :: bool
  defaultEnv :: env
  AVAILABLE_PLATFORMS :: "string list"

definition resolveCordovaLocalPluginPath :: "cordovaProject \<Rightarrow> string \<Rightarrow> string" where
  "resolveCordovaLocalPluginPath P pluginPath =
     (let pluginPath = drop (length ''file://'') pluginPath
      in if isPathRelative P pluginPath
         then pathRelative P (projectRoot P) (pathResolve P (projectDir P) pluginPath)
         else pluginPath)"

text \<open>A version specifier is a string, and \<open>!version\<close> holds of the empty one.\<close>

definition targetForPlugin :: "cordovaProject \<Rightarrow> string \<Rightarrow> string \<Rightarrow> exn + string" where
  "targetForPlugin P name version =
     (if version = [] then Inr name
      else if isUrlWithSha P version then convertToGitUrl version
      else if isUrlWithFileScheme P version
        then Inr (convertToOSPath P (resolveCordovaLocalPluginPath P version))
      else Inr (name @ ''@'' @ version))"

section \<open>The process, the build project and the toolchain\<close>

text \<open>
  The source of a plugin in \<open>plugins/fetch.json\<close>: type \<open>registry\<close> with its id, \<open>git\<close>
  with url and ref, \<open>local\<close> with its path, or any other type.
\<close>

datatype source = Registry string | Git string string | Local string | OtherSource

text \<open>
  The build project on disk: what \<open>cordova_util.listPlatforms\<close> lists, and what reading
  and parsing \<open>fetch.json\<close> gives (an object, in the order of its keys, or the error
  thrown). An object is a list of pairs with distinct keys.
\<close>

record project =
  platformsOnDisk :: "string list"
  fetchJson :: "exn + (string \<times> source) list"

record options =
  silent :: bool
  verbose :: bool

text \<open>The calls into \<open>cordova.raw\<close> that the synchronisation makes.\<close>

datatype command =
    PlatformAdd string options
  | PlatformRm string options
  | PluginAdd string options
  | PluginRm "string list" options

text \<open>
  What the code does that can be observed, in the order in which it happens: a call made
  to the toolchain, a progress report \<open>{current, end}\<close> of \<open>buildmessage\<close>, a line of
  \<open>Console.error\<close>.
\<close>

datatype event = Issued command | Progress nat nat | ConsoleError string

text \<open>
  The state the code reads and writes: the working directory of the process, the
  environment given to \<open>superspawn\<close>, the events so far and the project on disk.
\<close>

record world =
  cwd :: string
  spawnEnv :: env
  trace :: "event list"
  project :: project

text \<open>The calls made to the toolchain, and the progress reports, in order.\<close>

fun commandsOf :: "event list \<Rightarrow> command list" where
  "commandsOf [] = []"
| "commandsOf (Issued c # es) = c # commandsOf es"
| "commandsOf (e # es) = commandsOf es"

fun reportsOf :: "event list \<Rightarrow> (nat \<times> nat) list" where
  "reportsOf [] = []"
| "reportsOf (Progress current count # es) = (current, count) # reportsOf es"
| "reportsOf (e # es) = reportsOf es"

definition issued :: "world \<Rightarrow> command list" where
  "issued w = commandsOf (trace w)"

definition progress :: "world \<Rightarrow> (nat \<times> nat) list" where
  "progress w = reportsOf (trace w)"

text \<open>
  The toolchain is a parameter: given a command, the working directory and the
  environment, it changes the project in any way and may throw.
\<close>

type_synonym toolchain = "command \<Rightarrow> string \<Rightarrow> env \<Rightarrow> project \<Rightarrow> exn option \<times> project"

definition cordova_raw :: "toolchain \<Rightarrow> command \<Rightarrow> world \<Rightarrow> (exn + unit) \<times> world" where
  "cordova_raw tool c w =
     (let (e, p) = tool c (cwd w) (spawnEnv w) (project w);
          w' = w\<lparr>trace := trace w @ [Issued c], project := p\<rparr>
      in (case e of None \<Rightarrow> Inr () | Some x \<Rightarrow> Inl x, w'))"

definition chdir :: "string \<Rightarrow> world \<Rightarrow> world" where
  "chdir d w = w\<lparr>cwd := d\<rparr>"

definition setEnv :: "env \<Rightarrow> world \<Rightarrow> world" where
  "setEnv e w = w\<lparr>spawnEnv := e\<rparr>"

definition consoleError :: "string \<Rightarrow> world \<Rightarrow> world" where
  "consoleError m w = w\<lparr>trace := trace w @ [ConsoleError m]\<rparr>"

definition reportProgress :: "nat \<times> nat \<Rightarrow> world \<Rightarrow> world" where
  "reportProgress r w = w\<lparr>trace := trace w @ [Progress (fst r) (snd r)]\<rparr>"

definition defaultOptions :: "cordovaProject \<Rightarrow> options" where
  "defaultOptions P = \<lparr>silent = \<not> consoleVerbose P, verbose = consoleVerbose P\<rparr>"

section \<open>Cordova commands support\<close>

text \<open>
  \<open>runCommands(asyncFunc, env, cwd)\<close>. The action is any function of the state that
  returns a value or throws; \<open>cwd\<close> is \<open>None\<close> for \<open>null\<close>, and the empty string is falsy
  as well. \<open>process.chdir\<close> and \<open>superspawn.setEnv\<close> are taken to succeed. The \<open>finally\<close>
  block runs on the three ways out of \<open>try\<close>. The two lines of \<open>Console.error\<close> are
  recorded without the colour that \<open>chalk\<close> gives the second.
\<close>

definition enterDirectory :: "cordovaProject \<Rightarrow> string option \<Rightarrow> world \<Rightarrow> world" where
  "enterDirectory P dir w =
     (case dir of
        None \<Rightarrow> w
      | Some d \<Rightarrow> if d \<noteq> [] then chdir (convertToOSPath P d) w else w)"

definition runCommands ::
  "cordovaProject \<Rightarrow> (world \<Rightarrow> (exn + 'a) \<times> world) \<Rightarrow> env \<Rightarrow> string option \<Rightarrow> world
     \<Rightarrow> (exn + 'a) \<times> world" where
  "runCommands P asyncFunc env dir w =
     (let oldCwd = cwd w;
          w1 = enterDirectory P dir w;
          w2 = setEnv env w1;
          (r, w3) = asyncFunc w2;
          (r', w4) =
            (case r of
               Inr v \<Rightarrow> (Inr v, w3)
             | Inl (CordovaError message) \<Rightarrow>
                 (Inl (ExitWithCode 1),
                  consoleError
                    ''Try running again with the --verbose option to help diagnose the issue.''
                    (consoleError (''cordova: '' @ message) w3))
             | Inl error \<Rightarrow> (Inl error, w3));
          w5 = (if oldCwd \<noteq> [] then chdir oldCwd w4 else w4)
      in (r', w5))"

section \<open>Platforms\<close>

definition listInstalledPlatforms :: "world \<Rightarrow> string list" where
  "listInstalledPlatforms w = platformsOnDisk (project w)"

definition addPlatform ::
  "cordovaProject \<Rightarrow> toolchain \<Rightarrow> string \<Rightarrow> world \<Rightarrow> (exn + unit) \<times> world" where
  "addPlatform P tool platform w =
     runCommands P (cordova_raw tool (PlatformAdd platform (defaultOptions P)))
       (defaultEnv P) (Some (projectRoot P)) w"

definition removePlatform ::
  "cordovaProject \<Rightarrow> toolchain \<Rightarrow> string \<Rightarrow> world \<Rightarrow> (exn + unit) \<times> world" where
  "removePlatform P tool platform w =
     runCommands P (cordova_raw tool (PlatformRm platform (defaultOptions P)))
       (defaultEnv P) (Some (projectRoot P)) w"

text \<open>The first loop of \<open>ensurePlatformsAreSynchronized\<close>; a throw ends it.\<close>

fun addMissingPlatforms ::
  "cordovaProject \<Rightarrow> toolchain \<Rightarrow> string list \<Rightarrow> string list \<Rightarrow> world
     \<Rightarrow> (exn + unit) \<times> world" where
  "addMissingPlatforms P tool installedPlatforms [] w = (Inr (), w)"
| "addMissingPlatforms P tool installedPlatforms (platform # rest) w =
     (if platform \<in> set installedPlatforms
      then addMissingPlatforms P tool installedPlatforms rest w
      else (case addPlatform P tool platform w of
              (Inl e, w') \<Rightarrow> (Inl e, w')
            | (Inr u, w') \<Rightarrow> addMissingPlatforms P tool installedPlatforms rest w'))"

text \<open>The second loop, over the installed platforms.\<close>

fun removeExtraPlatforms ::
  "cordovaProject \<Rightarrow> toolchain \<Rightarrow> string list \<Rightarrow> string list \<Rightarrow> world
     \<Rightarrow> (exn + unit) \<times> world" where
  "removeExtraPlatforms P tool platforms [] w = (Inr (), w)"
| "removeExtraPlatforms P tool platforms (platform # rest) w =
     (if platform \<notin> set platforms \<and> platform \<in> set (AVAILABLE_PLATFORMS P)
      then (case removePlatform P tool platform w of
              (Inl e, w') \<Rightarrow> (Inl e, w')
            | (Inr u, w') \<Rightarrow> removeExtraPlatforms P tool platforms rest w')
      else removeExtraPlatforms P tool platforms rest w)"

definition ensurePlatformsAreSynchronized ::
  "cordovaProject \<Rightarrow> toolchain \<Rightarrow> string list \<Rightarrow> world \<Rightarrow> (exn + unit) \<times> world" where
  "ensurePlatformsAreSynchronized P tool platforms w =
     (let installedPlatforms = listInstalledPlatforms w
      in (case addMissingPlatforms P tool installedPlatforms platforms w of
            (Inl e, w') \<Rightarrow> (Inl e, w')
          | (Inr u, w') \<Rightarrow> removeExtraPlatforms P tool platforms installedPlatforms w'))"

text \<open>
  What the synchronisation of platforms is to issue, in the words of the specification:
  an add for each desired platform that is not installed, then a remove for each
  installed platform that is not desired and belongs to the known platforms.
\<close>

definition platformsToAdd :: "string list \<Rightarrow> string list \<Rightarrow> string list" where
  "platformsToAdd desired installed = filter (\<lambda>platform. platform \<notin> set installed) desired"

definition platformsToRemove :: "cordovaProject \<Rightarrow> string list \<Rightarrow> string list \<Rightarrow> string list" where
  "platformsToRemove P desired installed =
     filter (\<lambda>platform. platform \<notin> set desired \<and> platform \<in> set (AVAILABLE_PLATFORMS P))
       installed"

definition platformOperations :: "cordovaProject \<Rightarrow> string list \<Rightarrow> string list \<Rightarrow> command list" where
  "platformOperations P desired installed =
     map (\<lambda>platform. PlatformAdd platform (defaultOptions P)) (platformsToAdd desired installed) @
     map (\<lambda>platform. PlatformRm platform (defaultOptions P))
       (platformsToRemove P desired installed)"

section \<open>Plugins\<close>

text \<open>\<open>id.split('@')\<close>: the pieces between the separators, at least one.\<close>

fun split :: "char \<Rightarrow> string \<Rightarrow> string list" where
  "split sep [] = [[]]"
| "split sep (c # r) =
     (if c = sep then [] # split sep r
      else (case split sep r of [] \<Rightarrow> [[c]] | piece # pieces \<Rightarrow> (c # piece) # pieces))"

text \<open>
  The version that \<open>listInstalledPlugins\<close> derives from a source; \<open>None\<close> is
  \<open>undefined\<close>: an id without \<open>@\<close>, or a source of another type.
\<close>

definition versionOfSource :: "source \<Rightarrow> string option" where
  "versionOfSource src =
     (case src of
        Registry ident \<Rightarrow> (case drop 1 (split CHR ''@'' ident) of [] \<Rightarrow> None | v # _ \<Rightarrow> Some v)
      | Git url ref \<Rightarrow> Some (url @ ''#'' @ ref)
      | Local path \<Rightarrow> Some path
      | OtherSource \<Rightarrow> None)"

definition listInstalledPlugins :: "world \<Rightarrow> exn + (string \<times> string option) list" where
  "listInstalledPlugins w =
     (case fetchJson (project w) of
        Inl e \<Rightarrow> Inl e
      | Inr pluginsMetadata \<Rightarrow>
          Inr (map (\<lambda>(name, metadata). (name, versionOfSource metadata)) pluginsMetadata))"

text \<open>
  \<open>addPlugin(name, version, config)\<close>; the configuration is not passed on by the source
  and is left out. The target is computed before, and outside, \<open>runCommands\<close>.
\<close>

definition addPlugin ::
  "cordovaProject \<Rightarrow> toolchain \<Rightarrow> string \<Rightarrow> string \<Rightarrow> world \<Rightarrow> (exn + unit) \<times> world" where
  "addPlugin P tool name version w =
     (case targetForPlugin P name version of
        Inl e \<Rightarrow> (Inl e, w)
      | Inr target \<Rightarrow>
          runCommands P (cordova_raw tool (PluginAdd target (defaultOptions P)))
            (defaultEnv P) (Some (projectRoot P)) w)"

definition removePlugins ::
  "cordovaProject \<Rightarrow> toolchain \<Rightarrow> string list \<Rightarrow> world \<Rightarrow> (exn + unit) \<times> world" where
  "removePlugins P tool pluginsToRemove w =
     (if pluginsToRemove = [] then (Inr (), w)
      else runCommands P (cordova_raw tool (PluginRm pluginsToRemove (defaultOptions P)))
             (defaultEnv P) (Some (projectRoot P)) w)"

text \<open>\<open>_.has(object, key)\<close> on an object given as a list of pairs.\<close>

definition has :: "('k \<times> 'v) list \<Rightarrow> 'k \<Rightarrow> bool" where
  "has object key = (key \<in> set (map fst object))"

text \<open>
  The version that is compared with the installed one: a specifier that
  \<open>utils.isUrlWithSha\<close> accepts goes through \<open>convertToGitUrl\<close>, which may throw.
\<close>

definition comparedVersion :: "cordovaProject \<Rightarrow> string \<Rightarrow> exn + string" where
  "comparedVersion P version =
     (if isUrlWithSha P version then convertToGitUrl version else Inr version)"

text \<open>
  The first \<open>_.each\<close> of \<open>ensurePluginsAreSynchronized\<close>, over the desired plugins: the
  state is \<open>shouldReinstallAllPlugins\<close> and \<open>pluginsFromLocalPath\<close>.
\<close>

fun scanPlugins ::
  "cordovaProject \<Rightarrow> (string \<times> string option) list \<Rightarrow> (string \<times> string) list
     \<Rightarrow> bool \<times> (string \<times> string) list \<Rightarrow> exn + bool \<times> (string \<times> string) list" where
  "scanPlugins P installedPlugins [] st = Inr st"
| "scanPlugins P installedPlugins ((name, version) # rest) (shouldReinstall, fromLocalPath) =
     (if isUrlWithFileScheme P version
      then scanPlugins P installedPlugins rest
             (shouldReinstall, AList.update name version fromLocalPath)
      else (case comparedVersion P version of
              Inl e \<Rightarrow> Inl e
            | Inr version' \<Rightarrow>
                scanPlugins P installedPlugins rest
                  (shouldReinstall \<or> \<not> has installedPlugins name
                     \<or> map_of installedPlugins name \<noteq> Some (Some version'),
                   fromLocalPath)))"

text \<open>The second \<open>_.each\<close>, over the installed plugins.\<close>

definition someInstalledNotDesired ::
  "(string \<times> string) list \<Rightarrow> (string \<times> string option) list \<Rightarrow> bool" where
  "someInstalledNotDesired plugins installedPlugins =
     list_ex (\<lambda>(name, version). \<not> has plugins name) installedPlugins"

text \<open>
  \<open>_.intersection(array, other)\<close> of underscore: the items of the first array that the
  second contains, each once, in the order of the first.
\<close>

fun intersectionFrom :: "'a list \<Rightarrow> 'a list \<Rightarrow> 'a list \<Rightarrow> 'a list" where
  "intersectionFrom result [] other = result"
| "intersectionFrom result (item # rest) other =
     (if item \<in> set result then intersectionFrom result rest other
      else if item \<in> set other then intersectionFrom (result @ [item]) rest other
      else intersectionFrom result rest other)"

definition intersection :: "'a list \<Rightarrow> 'a list \<Rightarrow> 'a list" where
  "intersection array other = intersectionFrom [] array other"

definition pluginsToRemove ::
  "bool \<Rightarrow> (string \<times> string) list \<Rightarrow> (string \<times> string option) list \<Rightarrow> string list" where
  "pluginsToRemove shouldReinstallAllPlugins pluginsFromLocalPath installedPlugins =
     (if shouldReinstallAllPlugins then map fst installedPlugins
      else intersection (map fst pluginsFromLocalPath) (map fst installedPlugins))"

definition pluginsToInstall ::
  "bool \<Rightarrow> (string \<times> string) list \<Rightarrow> (string \<times> string) list \<Rightarrow> (string \<times> string) list" where
  "pluginsToInstall shouldReinstallAllPlugins pluginsFromLocalPath plugins =
     (if shouldReinstallAllPlugins then plugins else pluginsFromLocalPath)"

text \<open>
  The last \<open>_.each\<close>: one \<open>addPlugin\<close> per entry, and a progress report after each add
  that returns. \<open>pluginsInstalled\<close> counts them.
\<close>

fun installEach ::
  "cordovaProject \<Rightarrow> toolchain \<Rightarrow> nat \<Rightarrow> nat \<Rightarrow> (string \<times> string) list \<Rightarrow> world
     \<Rightarrow> (exn + unit) \<times> world" where
  "installEach P tool pluginsCount pluginsInstalled [] w = (Inr (), w)"
| "installEach P tool pluginsCount pluginsInstalled ((name, version) # rest) w =
     (case addPlugin P tool name version w of
        (Inl e, w') \<Rightarrow> (Inl e, w')
      | (Inr u, w') \<Rightarrow>
          installEach P tool pluginsCount (Suc pluginsInstalled) rest
            (reportProgress (Suc pluginsInstalled, pluginsCount) w'))"

text \<open>The install batch: the report \<open>(0, pluginsCount)\<close>, then the adds.\<close>

definition installPlugins ::
  "cordovaProject \<Rightarrow> toolchain \<Rightarrow> (string \<times> string) list \<Rightarrow> world \<Rightarrow> (exn + unit) \<times> world" where
  "installPlugins P tool toInstall w =
     (let pluginsCount = length toInstall
      in installEach P tool pluginsCount 0 toInstall (reportProgress (0, pluginsCount) w))"

text \<open>
  \<open>ensurePluginsAreSynchronized(plugins)\<close>. The desired plugins are an object from name
  to version specifier, a list of pairs in the order in which \<open>_.each\<close> visits its keys.
  The debug lines and the job of \<open>buildmessage\<close> around the batch are left out, and so
  are the two assertions, which hold of every call with an object inside a capture.
\<close>

definition ensurePluginsAreSynchronized ::
  "cordovaProject \<Rightarrow> toolchain \<Rightarrow> (string \<times> string) list \<Rightarrow> world \<Rightarrow> (exn + unit) \<times> world" where
  "ensurePluginsAreSynchronized P tool plugins w =
     (case listInstalledPlugins w of
        Inl e \<Rightarrow> (Inl e, w)
      | Inr installedPlugins \<Rightarrow>
          (case scanPlugins P installedPlugins plugins (False, []) of
             Inl e \<Rightarrow> (Inl e, w)
           | Inr (changed, pluginsFromLocalPath) \<Rightarrow>
               (let shouldReinstallAllPlugins =
                      (changed \<or> someInstalledNotDesired plugins installedPlugins)
                in if shouldReinstallAllPlugins \<or> pluginsFromLocalPath \<noteq> []
                   then (case removePlugins P tool
                                (pluginsToRemove shouldReinstallAllPlugins pluginsFromLocalPath
                                   installedPlugins) w of
                           (Inl e, w') \<Rightarrow> (Inl e, w')
                         | (Inr u, w') \<Rightarrow>
                             installPlugins P tool
                               (pluginsToInstall shouldReinstallAllPlugins pluginsFromLocalPath
                                  plugins) w')
                   else (Inr (), w))))"

text \<open>
  The events of an install batch after its first report, in the words of the
  specification: for each target in turn the add, then the report of the number of adds
  completed so far out of \<open>pluginsCount\<close>.
\<close>

fun installSteps :: "cordovaProject \<Rightarrow> nat \<Rightarrow> nat \<Rightarrow> string list \<Rightarrow> event list" where
  "installSteps P pluginsCount completed [] = []"
| "installSteps P pluginsCount completed (target # targets) =
     Issued (PluginAdd target (defaultOptions P)) # Progress (Suc completed) pluginsCount
       # installSteps P pluginsCount (Suc completed) targets"

section \<open>A reference toolchain and reference helpers\<close>

text \<open>
  Modelled from the spec: the external toolchain (its \<open>platformAdd\<close>, \<open>platformRemove\<close>,
  \<open>pluginAdd\<close> and \<open>pluginRemove\<close>) and the plugin-fetch metadata it writes are not part
  of the source. This one never fails, adds and removes what it is asked to, and records
  for an added target the plugin name and source that \<open>found\<close> gives for it. It serves
  the concrete instances below.
\<close>

definition recordingToolchain :: "(string \<Rightarrow> string \<times> source) \<Rightarrow> toolchain" where
  "recordingToolchain found c dir e p =
     (case c of
        PlatformAdd platform opts \<Rightarrow>
          (None, p\<lparr>platformsOnDisk := platformsOnDisk p @ [platform]\<rparr>)
      | PlatformRm platform opts \<Rightarrow>
          (None, p\<lparr>platformsOnDisk := removeAll platform (platformsOnDisk p)\<rparr>)
      | PluginAdd target opts \<Rightarrow>
          (None, p\<lparr>fetchJson :=
             map_sum id (AList.update (fst (found target)) (snd (found target))) (fetchJson p)\<rparr>)
      | PluginRm names opts \<Rightarrow>
          (None, p\<lparr>fetchJson :=
             map_sum id (filter (\<lambda>(name, metadata). name \<notin> set names)) (fetchJson p)\<rparr>))"

text \<open>
  Modelled from the spec: \<open>utils.isUrlWithFileScheme\<close> and \<open>utils.isUrlWithSha\<close> are not
  part of the source. The spec calls a local path plugin one whose specifier is
  \<open>file://\<close>-prefixed, and a SHA URL one that carries a 40-hex-character commit SHA.
\<close>

definition specIsUrlWithFileScheme :: "string \<Rightarrow> bool" where
  "specIsUrlWithFileScheme version = prefix ''file://'' version"

fun specIsUrlWithSha :: "string \<Rightarrow> bool" where
  "specIsUrlWithSha [] = False"
| "specIsUrlWithSha (c # r) =
     ((40 \<le> length (c # r) \<and> list_all isHexDigit (take 40 (c # r))) \<or> specIsUrlWithSha r)"

text \<open>A project on a POSIX system, where an absolute path starts with a slash.\<close>

definition demoProject :: cordovaProject where
  "demoProject =
     \<lparr>projectRoot = ''/app/.meteor/local/cordova-build'',
      projectDir = ''/app'',
      isUrlWithSha = specIsUrlWithSha,
      isUrlWithFileScheme = specIsUrlWithFileScheme,
      isPathRelative = (\<lambda>path. \<not> prefix ''/'' path),
      pathRelative = (\<lambda>from to. ''../../..'' @ drop (length ''/app'') to),
      pathResolve = (\<lambda>dir path. dir @ ''/'' @ path),
      convertToOSPath = (\<lambda>path. path),
      consoleVerbose = False,
      defaultEnv = [(''PATH'', ''/usr/local/bin:/usr/bin'')],
      AVAILABLE_PLATFORMS = [''ios'', ''android'', ''web'']\<rparr>"

definition demoWorld ::
  "string list \<Rightarrow> (string \<times> source) list \<Rightarrow> world" where
  "demoWorld installedPlatforms pluginsMetadata =
     \<lparr>cwd = ''/home/user'', spawnEnv = [], trace = [],
      project = \<lparr>platformsOnDisk = installedPlatforms, fetchJson = Inr pluginsMetadata\<rparr>\<rparr>"

lemma testDotGit_iff: "testDotGit s \<longleftrightarrow> (\<exists>p r. s = p @ ''.git'' @ r)"
proof (induction s)
  case Nil
  then show ?case by simp
next
  case (Cons c s)
  show ?case
  proof
    assume "testDotGit (c # s)"
    then consider "prefix ''.git'' (c # s)" | "testDotGit s" by auto
    then show "\<exists>p r. c # s = p @ ''.git'' @ r"
    proof cases
      case 1
      then obtain r where "c # s = ''.git'' @ r" by (auto simp: prefix_def)
      then have "c # s = [] @ ''.git'' @ r" by simp
      then show ?thesis by blast
    next
      case 2
      with Cons.IH obtain p r where "s = p @ ''.git'' @ r" by blast
      then have "c # s = (c # p) @ ''.git'' @ r" by simp
      then show ?thesis by blast
    qed
  next
    assume "\<exists>p r. c # s = p @ ''.git'' @ r"
    then obtain p r where pr: "c # s = p @ ''.git'' @ r" by blast
    show "testDotGit (c # s)"
    proof (cases p)
      case Nil
      with pr have "prefix ''.git'' (c # s)" by (simp add: prefix_def)
      then show ?thesis by simp
    next
      case (Cons d p')
      with pr have "s = p' @ ''.git'' @ r" by simp
      with Cons.IH have "testDotGit s" by blast
      then show ?thesis by simp
    qed
  qed
qed

section \<open>The command execution context\<close>

lemma runCommands_result:
  "runCommands P asyncFunc env dir w =
     (case asyncFunc (setEnv env (enterDirectory P dir w)) of
        (Inr v, w3) \<Rightarrow> (Inr v, if cwd w \<noteq> [] then chdir (cwd w) w3 else w3)
      | (Inl (CordovaError message), w3) \<Rightarrow>
          (Inl (ExitWithCode 1),
           let w4 = consoleError
                    ''Try running again with the --verbose option to help diagnose the issue.''
                    (consoleError (''cordova: '' @ message) w3)
           in if cwd w \<noteq> [] then chdir (cwd w) w4 else w4)
      | (Inl e, w3) \<Rightarrow> (Inl e, if cwd w \<noteq> [] then chdir (cwd w) w3 else w3))"
  by (simp add: runCommands_def Let_def split: prod.splits sum.splits exn.splits)

text \<open>
  C4. Whatever the action does to the state, and whether it returns, throws a
  \<open>CordovaError\<close> or throws anything else, the working directory after \<open>runCommands\<close> is
  the one the process had before the call. The working directory of a process is never
  the empty string, which is the one value the guard \<open>if (oldCwd)\<close> would not restore.
\<close>

theorem runCommands_restores_cwd:
  assumes "cwd w \<noteq> []"
  shows "cwd (snd (runCommands P asyncFunc env dir w)) = cwd w"
  using assms
  by (simp add: runCommands_result chdir_def consoleError_def Let_def
      split: prod.splits sum.splits exn.splits)

theorem runCommands_restores_cwd_witness:
  "cwd (demoWorld [] []) \<noteq> [] \<and>
   cwd (snd (runCommands demoProject
     (\<lambda>w. (Inl (CordovaError ''no such platform'') :: exn + unit, w\<lparr>cwd := ''/tmp''\<rparr>))
     [] (Some ''/app/.meteor/local/cordova-build'') (demoWorld [] []))) = ''/home/user''"
proof -
  have h: "cwd (demoWorld [] []) \<noteq> []" by (simp add: demoWorld_def)
  from runCommands_restores_cwd [OF h] h show ?thesis by (simp add: demoWorld_def)
qed

text \<open>
  C7. When the action throws a \<open>CordovaError\<close>, \<open>runCommands\<close> throws \<open>ExitWithCode(1)\<close>
  in its place; when the action throws anything else, \<open>runCommands\<close> throws that same
  error. The action runs in the state left by the change of directory and of environment.
\<close>

theorem runCommands_classifies:
  "(fst (asyncFunc (setEnv env (enterDirectory P dir w))) = Inl (CordovaError message) \<longrightarrow>
      fst (runCommands P asyncFunc env dir w) = Inl (ExitWithCode 1)) \<and>
   (fst (asyncFunc (setEnv env (enterDirectory P dir w))) = Inl e \<and>
    (\<forall>message. e \<noteq> CordovaError message) \<longrightarrow>
      fst (runCommands P asyncFunc env dir w) = Inl e)"
  by (auto simp: runCommands_result split: prod.splits sum.splits exn.splits)

theorem runCommands_classifies_witness:
  "fst (runCommands demoProject
     (\<lambda>w. (Inl (CordovaError ''Platform ios already added.'') :: exn + unit, w))
     [] None (demoWorld [] [])) = Inl (ExitWithCode 1) \<and>
   fst (runCommands demoProject
     (\<lambda>w. (Inl (Error ''ENOENT'') :: exn + unit, w))
     [] None (demoWorld [] [])) = Inl (Error ''ENOENT'')"
proof -
  let ?toolchainFailure =
    "\<lambda>w :: world. (Inl (CordovaError ''Platform ios already added.'') :: exn + unit, w)"
  let ?otherFailure = "\<lambda>w :: world. (Inl (Error ''ENOENT'') :: exn + unit, w)"
  have a: "fst (?toolchainFailure (setEnv [] (enterDirectory demoProject None (demoWorld [] []))))
      = Inl (CordovaError ''Platform ios already added.'')"
    by simp
  have b: "fst (?otherFailure (setEnv [] (enterDirectory demoProject None (demoWorld [] []))))
      = Inl (Error ''ENOENT'') \<and> (\<forall>message. Error ''ENOENT'' \<noteq> CordovaError message)"
    by simp
  from a runCommands_classifies [of ?toolchainFailure "[]" demoProject None "demoWorld [] []"
      "''Platform ios already added.''"]
  have 1: "fst (runCommands demoProject ?toolchainFailure [] None (demoWorld [] []))
      = Inl (ExitWithCode 1)"
    by blast
  from b runCommands_classifies [of ?otherFailure "[]" demoProject None "demoWorld [] []"
      _ "Error ''ENOENT''"]
  have 2: "fst (runCommands demoProject ?otherFailure [] None (demoWorld [] []))
      = Inl (Error ''ENOENT'')"
    by blast
  from 1 2 show ?thesis by simp
qed

section \<open>Resolving version specifiers\<close>

lemma lit_append [simp]: "lit p k (p @ s) = k s"
  by (simp add: lit_def)

lemma lit_mismatch: "c \<noteq> d \<Longrightarrow> lit (d # q) k (c # r) = None"
  by (simp add: lit_def)

lemma lazyPlus_shortest:
  assumes "p \<noteq> []"
    and "\<forall>c \<in> set p. \<not> isLineTerminator c"
    and "k (acc @ p) r = Some m"
    and "\<And>p1 p2. p = p1 @ p2 \<Longrightarrow> p1 \<noteq> [] \<Longrightarrow> p2 \<noteq> [] \<Longrightarrow> k (acc @ p1) (p2 @ r) = None"
  shows "lazyPlus k acc (p @ r) = Some m"
  using assms
proof (induction p arbitrary: acc)
  case Nil
  then show ?case by simp
next
  case (Cons c p)
  show ?case
  proof (cases "p = []")
    case True
    with Cons.prems show ?thesis by simp
  next
    case False
    have none: "k (acc @ [c]) (p @ r) = None"
      using Cons.prems(4) [of "[c]" p] False by simp
    have "lazyPlus k (acc @ [c]) (p @ r) = Some m"
    proof (rule Cons.IH [OF False])
      show "\<forall>c \<in> set p. \<not> isLineTerminator c" using Cons.prems(2) by simp
      show "k ((acc @ [c]) @ p) r = Some m" using Cons.prems(3) by simp
      fix p1 p2
      assume "p = p1 @ p2" "p1 \<noteq> []" "p2 \<noteq> []"
      then show "k ((acc @ [c]) @ p1) (p2 @ r) = None"
        using Cons.prems(4) [of "c # p1" p2] by simp
    qed
    with none Cons.prems(2) show ?thesis by simp
  qed
qed

lemma hex40_exact:
  "length sha = 40 \<Longrightarrow> list_all isHexDigit sha \<Longrightarrow> hex40 k (sha @ rest) = k sha rest"
  by (simp add: hex40_def)

lemma matchTarballUrl_groups:
  assumes org: "organization \<noteq> []" "CHR ''/'' \<notin> set organization"
      "\<forall>c \<in> set organization. \<not> isLineTerminator c"
    and repo: "repository \<noteq> []" "CHR ''/'' \<notin> set repository"
      "\<forall>c \<in> set repository. \<not> isLineTerminator c"
    and sha: "length sha = 40" "list_all isHexDigit sha"
  shows "matchTarballUrl (''https://github.com/'' @ organization @ ''/'' @ repository
           @ ''/tarball/'' @ sha @ rest) = Some (organization, repository, sha)"
proof -
  let ?k2 = "\<lambda>org repository. lit ''/tarball/''
               (hex40 (\<lambda>sha rest. Some (org, repository, sha)))"
  let ?k1 = "\<lambda>org. lit ''/'' (lazyPlus (?k2 org) [])"
  have inner: "lazyPlus (?k2 organization) [] (repository @ (''/tarball/'' @ sha @ rest))
      = Some (organization, repository, sha)"
  proof (rule lazyPlus_shortest [OF repo(1) repo(3)])
    show "?k2 organization ([] @ repository) (''/tarball/'' @ sha @ rest)
        = Some (organization, repository, sha)"
      using sha hex40_exact [of sha _ rest] by (simp add: lit_def)
    fix p1 p2 :: string
    assume split: "repository = p1 @ p2" and "p1 \<noteq> []" and ne: "p2 \<noteq> []"
    then obtain c p2' where p2: "p2 = c # p2'" by (cases p2) auto
    with split repo(2) have "c \<noteq> CHR ''/''" by auto
    then show "?k2 organization ([] @ p1) (p2 @ (''/tarball/'' @ sha @ rest)) = None"
      using p2 by (simp add: lit_mismatch)
  qed
  have outer: "lazyPlus ?k1 [] (organization @ (''/'' @ repository @ ''/tarball/'' @ sha @ rest))
      = Some (organization, repository, sha)"
  proof (rule lazyPlus_shortest [OF org(1) org(3)])
    show "?k1 ([] @ organization) (''/'' @ repository @ ''/tarball/'' @ sha @ rest)
        = Some (organization, repository, sha)"
      using inner by (simp add: lit_def)
    fix p1 p2 :: string
    assume split: "organization = p1 @ p2" and "p1 \<noteq> []" and ne: "p2 \<noteq> []"
    then obtain c p2' where p2: "p2 = c # p2'" by (cases p2) auto
    with split org(2) have "c \<noteq> CHR ''/''" by auto
    then show "?k1 ([] @ p1) (p2 @ (''/'' @ repository @ ''/tarball/'' @ sha @ rest)) = None"
      using p2 by (simp add: lit_mismatch)
  qed
  show ?thesis
    unfolding matchTarballUrl_def
    using outer by (simp add: lit_def opt_def dot_def isLineTerminator_def)
qed


text \<open>
  C5, as amended. For an organization and a repository that are not empty and contain
  neither a slash nor a line terminator, and a SHA of 40 characters of \<open>0-9a-f\<close>, the
  specifier \<open>https://github.com/<org>/<repo>/tarball/<sha>\<close>, when \<open>utils.isUrlWithSha\<close>
  accepts it, resolves to the target \<open>https://github.com/<org>/<repo>.git#<sha>\<close>.
\<close>

theorem targetForPlugin_tarball_sha:
  assumes "organization \<noteq> []" "CHR ''/'' \<notin> set organization"
      "\<forall>c \<in> set organization. \<not> isLineTerminator c"
    and "repository \<noteq> []" "CHR ''/'' \<notin> set repository"
      "\<forall>c \<in> set repository. \<not> isLineTerminator c"
    and "length sha = 40" "list_all isHexDigit sha"
    and "isUrlWithSha P
           (''https://github.com/'' @ organization @ ''/'' @ repository @ ''/tarball/'' @ sha)"
  shows "targetForPlugin P name
           (''https://github.com/'' @ organization @ ''/'' @ repository @ ''/tarball/'' @ sha)
         = Inr (''https://github.com/'' @ organization @ ''/'' @ repository @ ''.git#'' @ sha)"
proof -
  let ?url = "''https://github.com/'' @ organization @ ''/'' @ repository @ ''/tarball/'' @ sha"
  have "matchTarballUrl (''https://github.com/'' @ organization @ ''/'' @ repository
          @ ''/tarball/'' @ sha @ []) = Some (organization, repository, sha)"
    using assms(1-8) by (rule matchTarballUrl_groups)
  then have "convertToGitUrl ?url
      = Inr (''https://github.com/'' @ organization @ ''/'' @ repository @ ''.git#'' @ sha)"
    by (simp add: convertToGitUrl_def)
  moreover have "?url \<noteq> []" by simp
  ultimately show ?thesis using assms(9) by (simp add: targetForPlugin_def)
qed

theorem targetForPlugin_tarball_sha_witness:
  "targetForPlugin demoProject ''com.meteor.cordova-update''
     ''https://github.com/meteor/com.meteor.cordova-update/tarball/92fe99b7248075318f6446b288995d4381d24cd2''
   = Inr ''https://github.com/meteor/com.meteor.cordova-update.git#92fe99b7248075318f6446b288995d4381d24cd2''"
proof -
  have sha: "length ''92fe99b7248075318f6446b288995d4381d24cd2'' = 40"
      "list_all isHexDigit ''92fe99b7248075318f6446b288995d4381d24cd2''"
    by (simp_all add: isHexDigit_def)
  have org: "''meteor'' \<noteq> []" "CHR ''/'' \<notin> set ''meteor''"
      "\<forall>c \<in> set ''meteor''. \<not> isLineTerminator c"
    by (simp_all add: isLineTerminator_def)
  have repo: "''com.meteor.cordova-update'' \<noteq> []"
      "CHR ''/'' \<notin> set ''com.meteor.cordova-update''"
      "\<forall>c \<in> set ''com.meteor.cordova-update''. \<not> isLineTerminator c"
    by (simp_all add: isLineTerminator_def)
  have accepted: "isUrlWithSha demoProject
      (''https://github.com/'' @ ''meteor'' @ ''/'' @ ''com.meteor.cordova-update''
         @ ''/tarball/'' @ ''92fe99b7248075318f6446b288995d4381d24cd2'')"
    by code_simp
  from targetForPlugin_tarball_sha [OF org repo sha accepted, of "''com.meteor.cordova-update''"]
  show ?thesis by simp
qed

text \<open>
  The claim does not hold for every organization and repository string. With an empty
  organization the pattern does not match, since \<open>(.+?)\<close> needs a character, and the
  resolution throws; with a repository that itself contains \<open>/tarball/\<close> and a SHA, the
  lazy captures stop at the first SHA and the target names another repository and
  commit.
\<close>

theorem targetForPlugin_tarball_sha_counterexample:
  "targetForPlugin demoProject ''plugin''
     (''https://github.com/'' @ [] @ ''/'' @ ''repo'' @ ''/tarball/''
        @ ''92fe99b7248075318f6446b288995d4381d24cd2'')
   = Inl (Error tarballMessage) \<and>
   targetForPlugin demoProject ''plugin''
     (''https://github.com/'' @ ''org'' @ ''/''
        @ ''repo/tarball/92fe99b7248075318f6446b288995d4381d24cd2/archive''
        @ ''/tarball/'' @ ''0123456789abcdef0123456789abcdef01234567'')
   = Inr ''https://github.com/org/repo.git#92fe99b7248075318f6446b288995d4381d24cd2''"
  by code_simp

text \<open>
  C10. A string that the tarball pattern does not match and that contains \<open>.git\<close>
  anywhere is returned as it is. The instance below has \<open>.git\<close> only inside the host
  name \<open>gist.github.com\<close>.
\<close>

theorem convertToGitUrl_passes_dot_git:
  assumes "matchTarballUrl url = None" and "\<exists>p r. url = p @ ''.git'' @ r"
  shows "convertToGitUrl url = Inr url"
  using assms by (simp add: convertToGitUrl_def testDotGit_iff)

theorem convertToGitUrl_passes_dot_git_witness:
  "convertToGitUrl ''https://gist.github.com/user/92fe99b7248075318f6446b288995d4381d24cd2''
   = Inr ''https://gist.github.com/user/92fe99b7248075318f6446b288995d4381d24cd2''"
proof -
  let ?url = "''https://gist.github.com/user/92fe99b7248075318f6446b288995d4381d24cd2''"
  have no_match: "matchTarballUrl ?url = None" by code_simp
  have "?url = ''https://gist'' @ ''.git'' @ ''hub.com/user/92fe99b7248075318f6446b288995d4381d24cd2''"
    by simp
  then have inside: "\<exists>p r. ?url = p @ ''.git'' @ r" by blast
  from convertToGitUrl_passes_dot_git [OF no_match inside] show ?thesis .
qed

text \<open>
  C6. For a version specifier that \<open>utils.isUrlWithSha\<close> accepts, that the tarball
  pattern does not match and that does not contain \<open>.git\<close>, the resolution throws the
  error about tarball URLs, and \<open>addPlugin\<close> throws it with the state as it was: nothing
  is issued to the toolchain, and the working directory and environment are not touched.
\<close>

theorem addPlugin_rejects_unsupported_url:
  assumes "isUrlWithSha P version" and "version \<noteq> []"
    and "matchTarballUrl version = None" and "\<not> (\<exists>p r. version = p @ ''.git'' @ r)"
  shows "targetForPlugin P name version = Inl (Error tarballMessage) \<and>
         addPlugin P tool name version w = (Inl (Error tarballMessage), w)"
proof -
  have "convertToGitUrl version = Inl (Error tarballMessage)"
    using assms(3,4) by (simp add: convertToGitUrl_def testDotGit_iff)
  then have "targetForPlugin P name version = Inl (Error tarballMessage)"
    using assms(1,2) by (simp add: targetForPlugin_def)
  then show ?thesis by (simp add: addPlugin_def)
qed

theorem addPlugin_rejects_unsupported_url_witness:
  "addPlugin demoProject (recordingToolchain (\<lambda>target. (''plugin'', Git target [])))
     ''plugin'' ''https://example.com/plugin/tarball/92fe99b7248075318f6446b288995d4381d24cd2''
     (demoWorld [] [])
   = (Inl (Error tarballMessage), demoWorld [] [])"
proof -
  let ?version = "''https://example.com/plugin/tarball/92fe99b7248075318f6446b288995d4381d24cd2''"
  have a: "isUrlWithSha demoProject ?version" by code_simp
  have b: "?version \<noteq> []" by simp
  have c: "matchTarballUrl ?version = None" by code_simp
  have "\<not> testDotGit ?version" by code_simp
  then have d: "\<not> (\<exists>p r. ?version = p @ ''.git'' @ r)" using testDotGit_iff [of ?version] by blast
  from addPlugin_rejects_unsupported_url [OF a b c d] show ?thesis by blast
qed

section \<open>What a call through runCommands changes\<close>

lemma commandsOf_append: "commandsOf (es @ fs) = commandsOf es @ commandsOf fs"
  by (induction es rule: commandsOf.induct) simp_all

lemma reportsOf_append: "reportsOf (es @ fs) = reportsOf es @ reportsOf fs"
  by (induction es rule: reportsOf.induct) simp_all

lemma trace_entered [simp]: "trace (setEnv env (enterDirectory P dir w)) = trace w"
  by (simp add: setEnv_def enterDirectory_def chdir_def split: option.splits)

lemma trace_cordova_raw: "trace (snd (cordova_raw tool c w)) = trace w @ [Issued c]"
  by (simp add: cordova_raw_def split: prod.splits option.splits)

text \<open>
  Around the events of the action, \<open>runCommands\<close> adds nothing but the two lines of
  \<open>Console.error\<close>, and those only for a \<open>CordovaError\<close>.
\<close>

lemma trace_runCommands:
  "\<exists>lines. trace (snd (runCommands P asyncFunc env dir w))
             = trace (snd (asyncFunc (setEnv env (enterDirectory P dir w))))
               @ map ConsoleError lines
           \<and> (fst (runCommands P asyncFunc env dir w) = Inr () \<longrightarrow> lines = [])"
proof -
  obtain r w3 where act: "asyncFunc (setEnv env (enterDirectory P dir w)) = (r, w3)"
    by force
  show ?thesis
  proof (cases r)
    case (Inr v)
    with act have "trace (snd (runCommands P asyncFunc env dir w)) = trace w3 @ map ConsoleError []"
      by (simp add: runCommands_result chdir_def)
    with act show ?thesis by (metis snd_conv)
  next
    case (Inl e)
    show ?thesis
    proof (cases e)
      case (CordovaError message)
      with Inl act have
        "trace (snd (runCommands P asyncFunc env dir w))
           = trace w3 @ map ConsoleError [''cordova: '' @ message,
               ''Try running again with the --verbose option to help diagnose the issue.'']"
        "fst (runCommands P asyncFunc env dir w) \<noteq> Inr ()"
        by (simp_all add: runCommands_result chdir_def consoleError_def Let_def)
      with act show ?thesis by (metis snd_conv)
    next
      case (ExitWithCode n)
      with Inl act have
        "trace (snd (runCommands P asyncFunc env dir w)) = trace w3 @ map ConsoleError []"
        "fst (runCommands P asyncFunc env dir w) \<noteq> Inr ()"
        by (simp_all add: runCommands_result chdir_def)
      with act show ?thesis by (metis snd_conv)
    next
      case (Error m)
      with Inl act have
        "trace (snd (runCommands P asyncFunc env dir w)) = trace w3 @ map ConsoleError []"
        "fst (runCommands P asyncFunc env dir w) \<noteq> Inr ()"
        by (simp_all add: runCommands_result chdir_def)
      with act show ?thesis by (metis snd_conv)
    qed
  qed
qed

lemma commandsOf_lines [simp]: "commandsOf (map ConsoleError lines) = []"
  by (induction lines) simp_all

lemma reportsOf_lines [simp]: "reportsOf (map ConsoleError lines) = []"
  by (induction lines) simp_all

lemma trace_runCommands_raw:
  "\<exists>lines. trace (snd (runCommands P (cordova_raw tool c) env dir w))
             = trace w @ Issued c # map ConsoleError lines
           \<and> (fst (runCommands P (cordova_raw tool c) env dir w) = Inr () \<longrightarrow> lines = [])"
  using trace_runCommands [of P "cordova_raw tool c" env dir w]
  by (simp add: trace_cordova_raw)

lemma issued_runCommands_raw:
  "issued (snd (runCommands P (cordova_raw tool c) env dir w)) = issued w @ [c]"
  using trace_runCommands_raw [of P tool c env dir w]
  by (auto simp: issued_def commandsOf_append)

lemma progress_runCommands_raw:
  "progress (snd (runCommands P (cordova_raw tool c) env dir w)) = progress w"
  using trace_runCommands_raw [of P tool c env dir w]
  by (auto simp: progress_def reportsOf_append)

section \<open>Synchronising platforms\<close>

lemma addMissingPlatforms_issued:
  "\<exists>k. issued (snd (addMissingPlatforms P tool installed desired w))
         = issued w @ take k (map (\<lambda>platform. PlatformAdd platform (defaultOptions P))
                                (platformsToAdd desired installed))
       \<and> (fst (addMissingPlatforms P tool installed desired w) = Inr () \<longrightarrow>
            length (platformsToAdd desired installed) \<le> k)"
proof (induction desired arbitrary: w)
  case Nil
  then show ?case by (simp add: platformsToAdd_def)
next
  case (Cons platform rest)
  let ?add = "\<lambda>platform. PlatformAdd platform (defaultOptions P)"
  show ?case
  proof (cases "platform \<in> set installed")
    case True
    with Cons.IH [of w] show ?thesis by (simp add: platformsToAdd_def)
  next
    case False
    obtain r w' where step: "addPlatform P tool platform w = (r, w')" by force
    have iss: "issued w' = issued w @ [?add platform]"
      using step issued_runCommands_raw [of P tool "?add platform" "defaultEnv P"
          "Some (projectRoot P)" w]
      by (simp add: addPlatform_def)
    show ?thesis
    proof (cases r)
      case (Inl e)
      with step False iss have
        "issued (snd (addMissingPlatforms P tool installed (platform # rest) w))
           = issued w @ take 1 (map ?add (platformsToAdd (platform # rest) installed))"
        "fst (addMissingPlatforms P tool installed (platform # rest) w) \<noteq> Inr ()"
        by (simp_all add: platformsToAdd_def)
      then show ?thesis by blast
    next
      case (Inr u)
      from Cons.IH [of w'] obtain k where
        k: "issued (snd (addMissingPlatforms P tool installed rest w'))
              = issued w' @ take k (map ?add (platformsToAdd rest installed))"
           "fst (addMissingPlatforms P tool installed rest w') = Inr () \<longrightarrow>
              length (platformsToAdd rest installed) \<le> k"
        by blast
      from Inr step False iss k have
        "issued (snd (addMissingPlatforms P tool installed (platform # rest) w))
           = issued w @ take (Suc k) (map ?add (platformsToAdd (platform # rest) installed))"
        "fst (addMissingPlatforms P tool installed (platform # rest) w) = Inr () \<longrightarrow>
           length (platformsToAdd (platform # rest) installed) \<le> Suc k"
        by (simp_all add: platformsToAdd_def)
      then show ?thesis by blast
    qed
  qed
qed

lemma removeExtraPlatforms_issued:
  "\<exists>k. issued (snd (removeExtraPlatforms P tool desired installed w))
         = issued w @ take k (map (\<lambda>platform. PlatformRm platform (defaultOptions P))
                                (platformsToRemove P desired installed))
       \<and> (fst (removeExtraPlatforms P tool desired installed w) = Inr () \<longrightarrow>
            length (platformsToRemove P desired installed) \<le> k)"
proof (induction installed arbitrary: w)
  case Nil
  then show ?case by (simp add: platformsToRemove_def)
next
  case (Cons platform rest)
  let ?rm = "\<lambda>platform. PlatformRm platform (defaultOptions P)"
  show ?case
  proof (cases "platform \<notin> set desired \<and> platform \<in> set (AVAILABLE_PLATFORMS P)")
    case False
    with Cons.IH [of w] show ?thesis by (auto simp: platformsToRemove_def)
  next
    case True
    obtain r w' where step: "removePlatform P tool platform w = (r, w')" by force
    have iss: "issued w' = issued w @ [?rm platform]"
      using step issued_runCommands_raw [of P tool "?rm platform" "defaultEnv P"
          "Some (projectRoot P)" w]
      by (simp add: removePlatform_def)
    show ?thesis
    proof (cases r)
      case (Inl e)
      with step True iss have
        "issued (snd (removeExtraPlatforms P tool desired (platform # rest) w))
           = issued w @ take 1 (map ?rm (platformsToRemove P desired (platform # rest)))"
        "fst (removeExtraPlatforms P tool desired (platform # rest) w) \<noteq> Inr ()"
        by (simp_all add: platformsToRemove_def)
      then show ?thesis by blast
    next
      case (Inr u)
      from Cons.IH [of w'] obtain k where
        k: "issued (snd (removeExtraPlatforms P tool desired rest w'))
              = issued w' @ take k (map ?rm (platformsToRemove P desired rest))"
           "fst (removeExtraPlatforms P tool desired rest w') = Inr () \<longrightarrow>
              length (platformsToRemove P desired rest) \<le> k"
        by blast
      from Inr step True iss k have
        "issued (snd (removeExtraPlatforms P tool desired (platform # rest) w))
           = issued w @ take (Suc k) (map ?rm (platformsToRemove P desired (platform # rest)))"
        "fst (removeExtraPlatforms P tool desired (platform # rest) w) = Inr () \<longrightarrow>
           length (platformsToRemove P desired (platform # rest)) \<le> Suc k"
        by (simp_all add: platformsToRemove_def)
      then show ?thesis by blast
    qed
  qed
qed


text \<open>
  C8. The commands that \<open>ensurePlatformsAreSynchronized\<close> issues are, in this order, one
  add for each desired platform that is not installed and one remove for each installed
  platform that is neither desired nor outside \<open>AVAILABLE_PLATFORMS\<close>: all of them when
  the run returns, and the first ones of that list when an add or a remove throws. For
  sets of platforms (lists without repetition) no command occurs twice. The instance below
  is the one of the specification: desired ios and android, installed android and web.
\<close>

theorem ensurePlatformsAreSynchronized_operations:
  "(\<exists>k. issued (snd (ensurePlatformsAreSynchronized P tool desired w))
          = issued w @ take k (platformOperations P desired (listInstalledPlatforms w))) \<and>
   (fst (ensurePlatformsAreSynchronized P tool desired w) = Inr () \<longrightarrow>
      issued (snd (ensurePlatformsAreSynchronized P tool desired w))
        = issued w @ platformOperations P desired (listInstalledPlatforms w)) \<and>
   (distinct desired \<and> distinct (listInstalledPlatforms w) \<longrightarrow>
      distinct (platformOperations P desired (listInstalledPlatforms w))) \<and>
   set (platformsToAdd desired (listInstalledPlatforms w))
     = set desired - set (listInstalledPlatforms w) \<and>
   set (platformsToRemove P desired (listInstalledPlatforms w))
     = (set (listInstalledPlatforms w) - set desired) \<inter> set (AVAILABLE_PLATFORMS P)"
proof -
  let ?installed = "listInstalledPlatforms w"
  let ?adds = "map (\<lambda>platform. PlatformAdd platform (defaultOptions P))
                 (platformsToAdd desired ?installed)"
  let ?rms = "map (\<lambda>platform. PlatformRm platform (defaultOptions P))
                (platformsToRemove P desired ?installed)"
  have plan: "platformOperations P desired ?installed = ?adds @ ?rms"
    by (simp add: platformOperations_def)
  obtain r1 w1 where first: "addMissingPlatforms P tool ?installed desired w = (r1, w1)"
    by force
  from addMissingPlatforms_issued [of P tool ?installed desired w] first
  obtain k1 where k1: "issued w1 = issued w @ take k1 ?adds"
      "r1 = Inr () \<longrightarrow> length (platformsToAdd desired ?installed) \<le> k1"
    by auto
  have run: "(\<exists>k. issued (snd (ensurePlatformsAreSynchronized P tool desired w))
                  = issued w @ take k (?adds @ ?rms)) \<and>
             (fst (ensurePlatformsAreSynchronized P tool desired w) = Inr () \<longrightarrow>
                issued (snd (ensurePlatformsAreSynchronized P tool desired w))
                  = issued w @ ?adds @ ?rms)"
  proof (cases r1)
    case (Inl e)
    with first have res: "ensurePlatformsAreSynchronized P tool desired w = (Inl e, w1)"
      by (simp add: ensurePlatformsAreSynchronized_def)
    have a: "issued (snd (ensurePlatformsAreSynchronized P tool desired w))
        = issued w @ take (min k1 (length ?adds)) (?adds @ ?rms)"
      using res k1(1) by (simp add: min_def)
    have b: "fst (ensurePlatformsAreSynchronized P tool desired w) \<noteq> Inr ()"
      using res by simp
    from a b show ?thesis by blast
  next
    case (Inr u)
    with k1 have all_adds: "issued w1 = issued w @ ?adds" by simp
    from Inr first have res: "ensurePlatformsAreSynchronized P tool desired w
        = removeExtraPlatforms P tool desired ?installed w1"
      by (simp add: ensurePlatformsAreSynchronized_def)
    from removeExtraPlatforms_issued [of P tool desired ?installed w1]
    obtain k2 where k2:
      "issued (snd (removeExtraPlatforms P tool desired ?installed w1))
         = issued w1 @ take k2 ?rms"
      "fst (removeExtraPlatforms P tool desired ?installed w1) = Inr () \<longrightarrow>
         length (platformsToRemove P desired ?installed) \<le> k2"
      by blast
    have a: "issued (snd (ensurePlatformsAreSynchronized P tool desired w))
        = issued w @ take (length ?adds + k2) (?adds @ ?rms)"
      using res k2(1) all_adds by simp
    have b: "fst (ensurePlatformsAreSynchronized P tool desired w) = Inr () \<longrightarrow>
        issued (snd (ensurePlatformsAreSynchronized P tool desired w)) = issued w @ ?adds @ ?rms"
      using res k2 all_adds by simp
    from a b show ?thesis by blast
  qed
  have once: "distinct desired \<and> distinct ?installed \<longrightarrow> distinct (?adds @ ?rms)"
    by (auto simp: distinct_map inj_on_def platformsToAdd_def platformsToRemove_def)
  have sets: "set (platformsToAdd desired ?installed) = set desired - set ?installed"
      "set (platformsToRemove P desired ?installed)
         = (set ?installed - set desired) \<inter> set (AVAILABLE_PLATFORMS P)"
    by (auto simp: platformsToAdd_def platformsToRemove_def)
  from run once sets show ?thesis unfolding plan by blast
qed

theorem ensurePlatformsAreSynchronized_operations_witness:
  "ensurePlatformsAreSynchronized demoProject
       (recordingToolchain (\<lambda>target. (target, Registry target)))
       [''ios'', ''android''] (demoWorld [''android'', ''web''] []) =
     (Inr (),
      (demoWorld [''android'', ''ios''] [])
        \<lparr>spawnEnv := defaultEnv demoProject,
         trace := [Issued (PlatformAdd ''ios'' \<lparr>silent = True, verbose = False\<rparr>),
                   Issued (PlatformRm ''web'' \<lparr>silent = True, verbose = False\<rparr>)]\<rparr>) \<and>
   issued (snd (ensurePlatformsAreSynchronized demoProject
       (recordingToolchain (\<lambda>target. (target, Registry target)))
       [''ios'', ''android''] (demoWorld [''android'', ''web''] [])))
     = issued (demoWorld [''android'', ''web''] []) @
       [PlatformAdd ''ios'' \<lparr>silent = True, verbose = False\<rparr>,
        PlatformRm ''web'' \<lparr>silent = True, verbose = False\<rparr>]"
proof -
  let ?tool = "recordingToolchain (\<lambda>target. (target, Registry target))"
  let ?w = "demoWorld [''android'', ''web''] []"
  have run: "ensurePlatformsAreSynchronized demoProject ?tool [''ios'', ''android''] ?w =
     (Inr (),
      (demoWorld [''android'', ''ios''] [])
        \<lparr>spawnEnv := defaultEnv demoProject,
         trace := [Issued (PlatformAdd ''ios'' \<lparr>silent = True, verbose = False\<rparr>),
                   Issued (PlatformRm ''web'' \<lparr>silent = True, verbose = False\<rparr>)]\<rparr>)"
    by code_simp
  then have ok: "fst (ensurePlatformsAreSynchronized demoProject ?tool [''ios'', ''android''] ?w)
      = Inr ()"
    by simp
  have plan: "platformOperations demoProject [''ios'', ''android''] (listInstalledPlatforms ?w)
      = [PlatformAdd ''ios'' \<lparr>silent = True, verbose = False\<rparr>,
         PlatformRm ''web'' \<lparr>silent = True, verbose = False\<rparr>]"
    by code_simp
  from ensurePlatformsAreSynchronized_operations
         [of demoProject ?tool "[''ios'', ''android'']" ?w] ok
  have "issued (snd (ensurePlatformsAreSynchronized demoProject ?tool [''ios'', ''android''] ?w))
      = issued ?w @ platformOperations demoProject [''ios'', ''android'']
          (listInstalledPlatforms ?w)"
    by blast
  with plan run show ?thesis by simp
qed

section \<open>The install batch\<close>

lemma reportsOf_installSteps:
  "reportsOf (installSteps P pluginsCount completed targets)
   = map (\<lambda>current. (current, pluginsCount)) [Suc completed ..< Suc (completed + length targets)]"
proof (induction targets arbitrary: completed)
  case Nil
  then show ?case by simp
next
  case (Cons target targets)
  have "Suc completed < Suc (completed + length (target # targets))" by simp
  from upt_conv_Cons [OF this]
  have "[Suc completed ..< Suc (completed + length (target # targets))]
      = Suc completed # [Suc (Suc completed) ..< Suc (Suc completed + length targets)]"
    by simp
  with Cons.IH [of "Suc completed"] show ?case by simp
qed

lemma addPlugin_cases:
  obtains (rejected) e where "targetForPlugin P name version = Inl e"
      "addPlugin P tool name version w = (Inl e, w)"
    | (failed) target e w' lines where "targetForPlugin P name version = Inr target"
      "addPlugin P tool name version w = (Inl e, w')"
      "trace w' = trace w @ Issued (PluginAdd target (defaultOptions P)) # map ConsoleError lines"
    | (added) target w' where "targetForPlugin P name version = Inr target"
      "addPlugin P tool name version w = (Inr (), w')"
      "trace w' = trace w @ [Issued (PluginAdd target (defaultOptions P))]"
proof (cases "targetForPlugin P name version")
  case (Inl e)
  then have "addPlugin P tool name version w = (Inl e, w)" by (simp add: addPlugin_def)
  with Inl show ?thesis by (rule rejected)
next
  case (Inr target)
  note resolved = this
  let ?c = "PluginAdd target (defaultOptions P)"
  let ?run = "runCommands P (cordova_raw tool ?c) (defaultEnv P) (Some (projectRoot P)) w"
  from resolved have run: "addPlugin P tool name version w = ?run"
    by (simp add: addPlugin_def)
  from trace_runCommands_raw [of P tool ?c "defaultEnv P" "Some (projectRoot P)" w]
  obtain lines where lines: "trace (snd ?run) = trace w @ Issued ?c # map ConsoleError lines"
      "fst ?run = Inr () \<longrightarrow> lines = []"
    by blast
  show ?thesis
  proof (cases "fst ?run")
    case (Inl e)
    then have thrown: "addPlugin P tool name version w = (Inl e, snd ?run)"
      using run by (metis prod.collapse)
    show ?thesis by (rule failed [OF resolved thrown lines(1)])
  next
    case (Inr u)
    then have returned: "addPlugin P tool name version w = (Inr (), snd ?run)"
      using run by (metis prod.collapse old.unit.exhaust)
    from Inr lines have quiet: "trace (snd ?run) = trace w @ [Issued ?c]" by simp
    show ?thesis by (rule added [OF resolved returned quiet])
  qed
qed

lemma installEach_trace:
  "\<exists>k targets rest.
     k \<le> length toInstall \<and>
     map (\<lambda>(name, version). targetForPlugin P name version) (take k toInstall) = map Inr targets \<and>
     trace (snd (installEach P tool pluginsCount completed toInstall w))
       = trace w @ installSteps P pluginsCount completed targets @ rest \<and>
     reportsOf rest = [] \<and>
     (fst (installEach P tool pluginsCount completed toInstall w) = Inr () \<longrightarrow>
        k = length toInstall \<and> rest = []) \<and>
     (k = length toInstall \<longrightarrow>
        fst (installEach P tool pluginsCount completed toInstall w) = Inr ())"
proof (induction toInstall arbitrary: completed w)
  case Nil
  have "map (\<lambda>(name, version). targetForPlugin P name version) (take 0 []) = map Inr []"
    by simp
  then show ?case by (intro exI [of _ 0] exI [of _ "[]"]) simp
next
  case (Cons entry toInstall)
  obtain name version where entry: "entry = (name, version)" by force
  let ?run = "installEach P tool pluginsCount completed (entry # toInstall) w"
  let ?goal = "\<lambda>k targets rest.
     k \<le> length (entry # toInstall) \<and>
     map (\<lambda>(name, version). targetForPlugin P name version) (take k (entry # toInstall))
       = map Inr targets \<and>
     trace (snd ?run) = trace w @ installSteps P pluginsCount completed targets @ rest \<and>
     reportsOf rest = [] \<and>
     (fst ?run = Inr () \<longrightarrow> k = length (entry # toInstall) \<and> rest = []) \<and>
     (k = length (entry # toInstall) \<longrightarrow> fst ?run = Inr ())"
  show ?case
  proof (cases rule: addPlugin_cases [of P name version tool w])
    case (rejected e)
    with entry have "?run = (Inl e, w)" by simp
    then have "?goal 0 [] []" by simp
    then show ?thesis by blast
  next
    case (failed target e w' lines)
    with entry have "?run = (Inl e, w')" by simp
    with failed(3) have
      "?goal 0 [] (Issued (PluginAdd target (defaultOptions P)) # map ConsoleError lines)"
      by simp
    then show ?thesis by blast
  next
    case (added target w')
    let ?w'' = "reportProgress (Suc completed, pluginsCount) w'"
    let ?rest = "installEach P tool pluginsCount (Suc completed) toInstall ?w''"
    from added entry have run: "?run = ?rest" by simp
    have tr: "trace ?w'' = trace w @ [Issued (PluginAdd target (defaultOptions P)),
        Progress (Suc completed) pluginsCount]"
      using added(3) by (simp add: reportProgress_def)
    from Cons.IH [of "Suc completed" ?w''] obtain k targets rest where ih:
      "k \<le> length toInstall"
      "map (\<lambda>(name, version). targetForPlugin P name version) (take k toInstall)
         = map Inr targets"
      "trace (snd ?rest) = trace ?w'' @ installSteps P pluginsCount (Suc completed) targets @ rest"
      "reportsOf rest = []"
      "fst ?rest = Inr () \<longrightarrow> k = length toInstall \<and> rest = []"
      "k = length toInstall \<longrightarrow> fst ?rest = Inr ()"
      by blast
    have "?goal (Suc k) (target # targets) rest"
      using ih run tr added(1) entry by simp
    then show ?thesis by blast
  qed
qed


text \<open>
  C9. In an install batch of \<open>N\<close> plugins the events are the report \<open>(0, N)\<close>, then for
  each plugin in turn its add followed by the report of the adds completed so far, up to
  the first add that throws; nothing after that is a report. So the reports are
  \<open>(0, N), (1, N), ..., (k, N)\<close> for the number \<open>k\<close> of adds completed, each value once,
  and \<open>k = N\<close> exactly when the batch returns.
\<close>

theorem installPlugins_progress:
  "\<exists>k targets rest.
     k \<le> length toInstall \<and>
     map (\<lambda>(name, version). targetForPlugin P name version) (take k toInstall) = map Inr targets \<and>
     trace (snd (installPlugins P tool toInstall w))
       = trace w @ Progress 0 (length toInstall)
           # installSteps P (length toInstall) 0 targets @ rest \<and>
     reportsOf rest = [] \<and>
     progress (snd (installPlugins P tool toInstall w))
       = progress w @ map (\<lambda>current. (current, length toInstall)) [0 ..< Suc k] \<and>
     (fst (installPlugins P tool toInstall w) = Inr () \<longrightarrow> k = length toInstall \<and> rest = []) \<and>
     (k = length toInstall \<longrightarrow> fst (installPlugins P tool toInstall w) = Inr ())"
proof -
  let ?N = "length toInstall"
  let ?w0 = "reportProgress (0, ?N) w"
  have run: "installPlugins P tool toInstall w = installEach P tool ?N 0 toInstall ?w0"
    by (simp add: installPlugins_def Let_def)
  have start: "trace ?w0 = trace w @ [Progress 0 ?N]"
    by (simp add: reportProgress_def)
  from installEach_trace [of toInstall P tool ?N 0 ?w0] obtain k targets rest where loop:
    "k \<le> ?N"
    "map (\<lambda>(name, version). targetForPlugin P name version) (take k toInstall) = map Inr targets"
    "trace (snd (installEach P tool ?N 0 toInstall ?w0))
       = trace ?w0 @ installSteps P ?N 0 targets @ rest"
    "reportsOf rest = []"
    "fst (installEach P tool ?N 0 toInstall ?w0) = Inr () \<longrightarrow> k = ?N \<and> rest = []"
    "k = ?N \<longrightarrow> fst (installEach P tool ?N 0 toInstall ?w0) = Inr ()"
    by blast
  from loop(1,2) have len: "length targets = k"
    by (metis length_map length_take min.absorb2)
  have tr: "trace (snd (installPlugins P tool toInstall w))
      = trace w @ Progress 0 ?N # installSteps P ?N 0 targets @ rest"
    using run loop(3) start by simp
  have "[0 ..< Suc k] = 0 # [Suc 0 ..< Suc (0 + k)]"
    by (simp add: upt_conv_Cons)
  then have reports: "progress (snd (installPlugins P tool toInstall w))
      = progress w @ map (\<lambda>current. (current, ?N)) [0 ..< Suc k]"
    using tr loop(4) len
    by (simp add: progress_def reportsOf_append reportsOf_installSteps)
  from loop(1,2,4,5,6) tr reports show ?thesis unfolding run by blast
qed

theorem installPlugins_progress_witness:
  "fst (installPlugins demoProject
          (recordingToolchain (\<lambda>target. (takeWhile (\<lambda>c. c \<noteq> CHR ''@'') target, Registry target)))
          [(''cordova-plugin-camera'', ''1.2.0''), (''cordova-plugin-device'', ''1.0.1'')]
          (demoWorld [] [])) = Inr () \<and>
   progress (snd (installPlugins demoProject
          (recordingToolchain (\<lambda>target. (takeWhile (\<lambda>c. c \<noteq> CHR ''@'') target, Registry target)))
          [(''cordova-plugin-camera'', ''1.2.0''), (''cordova-plugin-device'', ''1.0.1'')]
          (demoWorld [] []))) = [(0, 2), (1, 2), (2, 2)]"
proof -
  let ?tool =
    "recordingToolchain (\<lambda>target. (takeWhile (\<lambda>c. c \<noteq> CHR ''@'') target, Registry target))"
  let ?plugins = "[(''cordova-plugin-camera'', ''1.2.0''), (''cordova-plugin-device'', ''1.0.1'')]"
  let ?run = "installPlugins demoProject ?tool ?plugins (demoWorld [] [])"
  have ok: "fst ?run = Inr ()" by code_simp
  have before: "progress (demoWorld [] []) = []" by (simp add: progress_def demoWorld_def)
  from installPlugins_progress [of ?plugins demoProject ?tool "demoWorld [] []"] ok
  obtain k where "k = length ?plugins"
    "progress (snd ?run)
       = progress (demoWorld [] []) @ map (\<lambda>current. (current, length ?plugins)) [0 ..< Suc k]"
    by blast
  then have "progress (snd ?run) = map (\<lambda>current. (current, 2)) [0 ..< 3]"
    using before by (simp add: numeral_3_eq_3)
  also have "\<dots> = [(0, 2), (1, 2), (2, 2)]" by (simp add: upt_rec)
  finally show ?thesis using ok by simp
qed

section \<open>Synchronising plugins\<close>

lemma update_new_key: "k \<notin> fst ` set al \<Longrightarrow> AList.update k v al = al @ [(k, v)]"
  by (induction al) auto

lemma scanPlugins_succeeds:
  assumes "\<forall>(name, version) \<in> set plugins.
      \<not> isUrlWithFileScheme P version \<longrightarrow> (\<exists>v. comparedVersion P version = Inr v)"
  shows "\<exists>changed' fromLocalPath'.
      scanPlugins P installed plugins (changed, fromLocalPath) = Inr (changed', fromLocalPath') \<and>
      (changed \<longrightarrow> changed') \<and>
      ((\<exists>(name, version) \<in> set plugins. \<not> isUrlWithFileScheme P version \<and>
          (\<exists>v. comparedVersion P version = Inr v \<and>
             (\<not> has installed name \<or> map_of installed name \<noteq> Some (Some v))))
        \<longrightarrow> changed')"
  using assms
proof (induction plugins arbitrary: changed fromLocalPath)
  case Nil
  then show ?case by simp
next
  case (Cons entry plugins)
  obtain name version where entry: "entry = (name, version)" by force
  from Cons.prems have rest: "\<forall>(name, version) \<in> set plugins.
      \<not> isUrlWithFileScheme P version \<longrightarrow> (\<exists>v. comparedVersion P version = Inr v)"
    by simp
  show ?case
  proof (cases "isUrlWithFileScheme P version")
    case True
    from Cons.IH [OF rest, of changed "AList.update name version fromLocalPath"]
    show ?thesis using True entry by auto
  next
    case False
    with Cons.prems entry obtain v where v: "comparedVersion P version = Inr v" by auto
    let ?changed = "changed \<or> \<not> has installed name \<or> map_of installed name \<noteq> Some (Some v)"
    from Cons.IH [OF rest, of ?changed fromLocalPath]
    show ?thesis using False entry v by auto
  qed
qed

lemma scanPlugins_agreeing:
  assumes "\<forall>(name, version) \<in> set plugins. \<not> isUrlWithFileScheme P version \<longrightarrow>
      (\<exists>v. comparedVersion P version = Inr v \<and> map_of installed name = Some (Some v))"
    and "distinct (map fst plugins)"
    and "\<forall>name \<in> set (map fst plugins). name \<notin> fst ` set fromLocalPath"
  shows "scanPlugins P installed plugins (changed, fromLocalPath)
      = Inr (changed,
             fromLocalPath @ filter (\<lambda>(name, version). isUrlWithFileScheme P version) plugins)"
  using assms
proof (induction plugins arbitrary: fromLocalPath)
  case Nil
  then show ?case by simp
next
  case (Cons entry plugins)
  obtain name version where entry: "entry = (name, version)" by force
  from Cons.prems(1) have rest: "\<forall>(name, version) \<in> set plugins.
      \<not> isUrlWithFileScheme P version \<longrightarrow>
      (\<exists>v. comparedVersion P version = Inr v \<and> map_of installed name = Some (Some v))"
    by simp
  from Cons.prems(2) have dist: "distinct (map fst plugins)" by simp
  show ?case
  proof (cases "isUrlWithFileScheme P version")
    case True
    from Cons.prems(3) entry have new: "name \<notin> fst ` set fromLocalPath" by simp
    then have upd: "AList.update name version fromLocalPath = fromLocalPath @ [(name, version)]"
      by (rule update_new_key)
    have fresh: "\<forall>name' \<in> set (map fst plugins).
        name' \<notin> fst ` set (fromLocalPath @ [(name, version)])"
      using Cons.prems(2,3) entry by auto
    from Cons.IH [OF rest dist fresh] True entry upd show ?thesis by simp
  next
    case False
    with Cons.prems(1) entry obtain v where
      v: "comparedVersion P version = Inr v" "map_of installed name = Some (Some v)"
      by auto
    from v(2) have "has installed name"
      by (auto simp: has_def dest: map_of_SomeD intro: rev_image_eqI)
    moreover have "\<forall>name \<in> set (map fst plugins). name \<notin> fst ` set fromLocalPath"
      using Cons.prems(3) by simp
    ultimately show ?thesis
      using Cons.IH [OF rest dist, of fromLocalPath] False entry v by simp
  qed
qed

lemma set_intersectionFrom:
  "set (intersectionFrom result array other) = set result \<union> (set array \<inter> set other)"
  by (induction result array other rule: intersectionFrom.induct) auto

lemma set_intersection: "set (intersection array other) = set array \<inter> set other"
  by (simp add: intersection_def set_intersectionFrom)


text \<open>
  C2. When every specifier of a desired plugin that is not from a local path normalises,
  and one such plugin is not installed or is installed with another version than its
  normalised one, the run removes the names of all installed plugins and then installs
  all desired plugins, those from local paths included.
\<close>

theorem version_change_reinstalls_all:
  assumes "listInstalledPlugins w = Inr installed"
    and "\<forall>(name, version) \<in> set plugins.
           \<not> isUrlWithFileScheme P version \<longrightarrow> (\<exists>v. comparedVersion P version = Inr v)"
    and "(name, version) \<in> set plugins"
    and "\<not> isUrlWithFileScheme P version"
    and "comparedVersion P version = Inr normalized"
    and "\<not> has installed name \<or> map_of installed name \<noteq> Some (Some normalized)"
  shows "ensurePluginsAreSynchronized P tool plugins w
         = (case removePlugins P tool (map fst installed) w of
              (Inl e, w') \<Rightarrow> (Inl e, w')
            | (Inr u, w') \<Rightarrow> installPlugins P tool plugins w')"
proof -
  have "\<exists>(name, version) \<in> set plugins. \<not> isUrlWithFileScheme P version \<and>
          (\<exists>v. comparedVersion P version = Inr v \<and>
             (\<not> has installed name \<or> map_of installed name \<noteq> Some (Some v)))"
    using assms(3-6) by blast
  with scanPlugins_succeeds [OF assms(2), of installed False "[]"]
  obtain fromLocalPath where
    "scanPlugins P installed plugins (False, []) = Inr (True, fromLocalPath)"
    by auto
  with assms(1) show ?thesis
    by (simp add: ensurePluginsAreSynchronized_def pluginsToRemove_def pluginsToInstall_def
        split: prod.splits sum.splits)
qed

theorem version_change_reinstalls_all_witness:
  "issued (snd (ensurePluginsAreSynchronized demoProject
       (recordingToolchain (\<lambda>target. (takeWhile (\<lambda>c. c \<noteq> CHR ''@'') target, Registry target)))
       [(''cordova-plugin-camera'', ''1.2.0''), (''my-plugin'', ''file:///plugins/my-plugin'')]
       (demoWorld [] [(''cordova-plugin-camera'', Registry ''cordova-plugin-camera@1.1.0''),
                      (''cordova-plugin-device'', Registry ''cordova-plugin-device@1.0.1'')])))
   = [PluginRm [''cordova-plugin-camera'', ''cordova-plugin-device'']
        \<lparr>silent = True, verbose = False\<rparr>,
      PluginAdd ''cordova-plugin-camera@1.2.0'' \<lparr>silent = True, verbose = False\<rparr>,
      PluginAdd ''/plugins/my-plugin'' \<lparr>silent = True, verbose = False\<rparr>]"
proof -
  let ?tool =
    "recordingToolchain (\<lambda>target. (takeWhile (\<lambda>c. c \<noteq> CHR ''@'') target, Registry target))"
  let ?plugins =
    "[(''cordova-plugin-camera'', ''1.2.0''), (''my-plugin'', ''file:///plugins/my-plugin'')]"
  let ?w = "demoWorld [] [(''cordova-plugin-camera'', Registry ''cordova-plugin-camera@1.1.0''),
                          (''cordova-plugin-device'', Registry ''cordova-plugin-device@1.0.1'')]"
  let ?installed = "[(''cordova-plugin-camera'', Some ''1.1.0''),
                     (''cordova-plugin-device'', Some ''1.0.1'')]"
  have a: "listInstalledPlugins ?w = Inr ?installed" by code_simp
  have "list_all (\<lambda>(name, version). isUrlWithFileScheme demoProject version
          \<or> comparedVersion demoProject version = Inr version) ?plugins"
    by code_simp
  then have b: "\<forall>(name, version) \<in> set ?plugins.
      \<not> isUrlWithFileScheme demoProject version
        \<longrightarrow> (\<exists>v. comparedVersion demoProject version = Inr v)"
    by auto
  have c: "(''cordova-plugin-camera'', ''1.2.0'') \<in> set ?plugins" by simp
  have d: "\<not> isUrlWithFileScheme demoProject ''1.2.0''" by code_simp
  have e: "comparedVersion demoProject ''1.2.0'' = Inr ''1.2.0''" by code_simp
  have f: "\<not> has ?installed ''cordova-plugin-camera''
      \<or> map_of ?installed ''cordova-plugin-camera'' \<noteq> Some (Some ''1.2.0'')"
    by simp
  have rhs: "issued (snd (case removePlugins demoProject ?tool (map fst ?installed) ?w of
                (Inl e, w') \<Rightarrow> (Inl e, w')
              | (Inr u, w') \<Rightarrow> installPlugins demoProject ?tool ?plugins w'))
      = [PluginRm [''cordova-plugin-camera'', ''cordova-plugin-device'']
           \<lparr>silent = True, verbose = False\<rparr>,
         PluginAdd ''cordova-plugin-camera@1.2.0'' \<lparr>silent = True, verbose = False\<rparr>,
         PluginAdd ''/plugins/my-plugin'' \<lparr>silent = True, verbose = False\<rparr>]"
    by code_simp
  from version_change_reinstalls_all [OF a b c d e f, of ?tool] rhs show ?thesis by simp
qed


lemma nothing_installed_beyond_desired:
  assumes "\<forall>name \<in> set (map fst installed). has plugins name"
  shows "\<not> someInstalledNotDesired plugins installed"
  using assms by (auto simp: someInstalledNotDesired_def list_ex_iff)

text \<open>
  C3, as amended. Let the desired and the installed plugins agree outside the local
  paths: every desired plugin that is not from a local path is installed with its
  normalised version. Let every installed name be a desired one as well. Then \<open>shouldReinstallAllPlugins\<close> stays false,
  and the run removes the names that are desired from a local path and installed, and
  installs the desired plugins from local paths and no other; with no plugin from a local
  path it does nothing.
\<close>

theorem local_path_plugins_alone:
  assumes "listInstalledPlugins w = Inr installed"
    and "distinct (map fst plugins)"
    and "\<forall>(name, version) \<in> set plugins. \<not> isUrlWithFileScheme P version \<longrightarrow>
           (\<exists>v. comparedVersion P version = Inr v \<and> map_of installed name = Some (Some v))"
    and "\<forall>name \<in> set (map fst installed). has plugins name"
    and "fromLocalPath = filter (\<lambda>(name, version). isUrlWithFileScheme P version) plugins"
  shows "scanPlugins P installed plugins (False, []) = Inr (False, fromLocalPath) \<and>
         \<not> someInstalledNotDesired plugins installed \<and>
         ensurePluginsAreSynchronized P tool plugins w
           = (if fromLocalPath = [] then (Inr (), w)
              else (case removePlugins P tool
                           (intersection (map fst fromLocalPath) (map fst installed)) w of
                      (Inl e, w') \<Rightarrow> (Inl e, w')
                    | (Inr u, w') \<Rightarrow> installPlugins P tool fromLocalPath w')) \<and>
         set (intersection (map fst fromLocalPath) (map fst installed))
           = {name. \<exists>version. (name, version) \<in> set plugins \<and> isUrlWithFileScheme P version}
               \<inter> fst ` set installed"
proof -
  have scan: "scanPlugins P installed plugins (False, []) = Inr (False, fromLocalPath)"
    using scanPlugins_agreeing [OF assms(3) assms(2), of "[]" False] assms(5) by simp
  have quiet: "\<not> someInstalledNotDesired plugins installed"
    using assms(4) by (rule nothing_installed_beyond_desired)
  have run: "ensurePluginsAreSynchronized P tool plugins w
      = (if fromLocalPath = [] then (Inr (), w)
         else (case removePlugins P tool
                      (intersection (map fst fromLocalPath) (map fst installed)) w of
                 (Inl e, w') \<Rightarrow> (Inl e, w')
               | (Inr u, w') \<Rightarrow> installPlugins P tool fromLocalPath w'))"
    using assms(1) scan quiet
    by (simp add: ensurePluginsAreSynchronized_def pluginsToRemove_def pluginsToInstall_def
        split: prod.splits sum.splits)
  have names: "set (intersection (map fst fromLocalPath) (map fst installed))
      = {name. \<exists>version. (name, version) \<in> set plugins \<and> isUrlWithFileScheme P version}
          \<inter> fst ` set installed"
    unfolding set_intersection assms(5) by force
  from scan quiet run names show ?thesis by blast
qed

theorem local_path_plugins_alone_witness:
  "ensurePluginsAreSynchronized demoProject
       (recordingToolchain (\<lambda>target. (''my-plugin'', Local target)))
       [(''cordova-plugin-camera'', ''1.2.0''), (''my-plugin'', ''file:///plugins/my-plugin'')]
       (demoWorld [] [(''cordova-plugin-camera'', Registry ''cordova-plugin-camera@1.2.0''),
                      (''my-plugin'', Local ''/plugins/my-plugin'')])
   = (Inr (),
      (demoWorld [] [(''cordova-plugin-camera'', Registry ''cordova-plugin-camera@1.2.0''),
                     (''my-plugin'', Local ''/plugins/my-plugin'')])
        \<lparr>spawnEnv := defaultEnv demoProject,
         trace := [Issued (PluginRm [''my-plugin''] \<lparr>silent = True, verbose = False\<rparr>),
                   Progress 0 1,
                   Issued (PluginAdd ''/plugins/my-plugin'' \<lparr>silent = True, verbose = False\<rparr>),
                   Progress 1 1]\<rparr>)"
proof -
  let ?tool = "recordingToolchain (\<lambda>target. (''my-plugin'', Local target))"
  let ?plugins =
    "[(''cordova-plugin-camera'', ''1.2.0''), (''my-plugin'', ''file:///plugins/my-plugin'')]"
  let ?w = "demoWorld [] [(''cordova-plugin-camera'', Registry ''cordova-plugin-camera@1.2.0''),
                          (''my-plugin'', Local ''/plugins/my-plugin'')]"
  let ?installed = "[(''cordova-plugin-camera'', Some ''1.2.0''),
                     (''my-plugin'', Some ''/plugins/my-plugin'')]"
  let ?local = "[(''my-plugin'', ''file:///plugins/my-plugin'')]"
  have a: "listInstalledPlugins ?w = Inr ?installed" by code_simp
  have b: "distinct (map fst ?plugins)" by simp
  have "list_all (\<lambda>(name, version). isUrlWithFileScheme demoProject version
          \<or> (comparedVersion demoProject version = Inr version
              \<and> map_of ?installed name = Some (Some version))) ?plugins"
    by code_simp
  then have c: "\<forall>(name, version) \<in> set ?plugins. \<not> isUrlWithFileScheme demoProject version \<longrightarrow>
      (\<exists>v. comparedVersion demoProject version = Inr v
           \<and> map_of ?installed name = Some (Some v))"
    by auto
  have d: "\<forall>name \<in> set (map fst ?installed). has ?plugins name" by (simp add: has_def)
  have e: "?local = filter (\<lambda>(name, version). isUrlWithFileScheme demoProject version) ?plugins"
    by code_simp
  have rhs: "(if ?local = [] then (Inr (), ?w)
       else (case removePlugins demoProject ?tool
                    (intersection (map fst ?local) (map fst ?installed)) ?w of
               (Inl e, w') \<Rightarrow> (Inl e, w')
             | (Inr u, w') \<Rightarrow> installPlugins demoProject ?tool ?local w'))
     = (Inr (), ?w
        \<lparr>spawnEnv := defaultEnv demoProject,
         trace := [Issued (PluginRm [''my-plugin''] \<lparr>silent = True, verbose = False\<rparr>),
                   Progress 0 1,
                   Issued (PluginAdd ''/plugins/my-plugin'' \<lparr>silent = True, verbose = False\<rparr>),
                   Progress 1 1]\<rparr>)"
    by code_simp
  from local_path_plugins_alone [OF a b c d e, of ?tool] rhs show ?thesis by simp
qed

text \<open>
  Without the condition on the installed names the claim fails. Here the one desired
  plugin comes from the registry and is installed with its version, and the installed
  plugins differ from the desired ones only by a plugin installed from a local path that
  is no longer desired. The first loop leaves \<open>shouldReinstallAllPlugins\<close> false and finds
  no desired plugin from a local path, the second loop sets it, and the run removes both
  installed plugins and adds the registry plugin again.
\<close>

theorem local_path_plugins_alone_counterexample:
  "listInstalledPlugins
       (demoWorld [] [(''cordova-plugin-camera'', Registry ''cordova-plugin-camera@1.2.0''),
                      (''my-plugin'', Local ''/plugins/my-plugin'')])
     = Inr [(''cordova-plugin-camera'', Some ''1.2.0''),
            (''my-plugin'', Some ''/plugins/my-plugin'')] \<and>
   scanPlugins demoProject
       [(''cordova-plugin-camera'', Some ''1.2.0''), (''my-plugin'', Some ''/plugins/my-plugin'')]
       [(''cordova-plugin-camera'', ''1.2.0'')] (False, [])
     = Inr (False, []) \<and>
   someInstalledNotDesired [(''cordova-plugin-camera'', ''1.2.0'')]
       [(''cordova-plugin-camera'', Some ''1.2.0''), (''my-plugin'', Some ''/plugins/my-plugin'')] \<and>
   fst (ensurePluginsAreSynchronized demoProject
          (recordingToolchain (\<lambda>target. (takeWhile (\<lambda>c. c \<noteq> CHR ''@'') target, Registry target)))
          [(''cordova-plugin-camera'', ''1.2.0'')]
          (demoWorld [] [(''cordova-plugin-camera'', Registry ''cordova-plugin-camera@1.2.0''),
                         (''my-plugin'', Local ''/plugins/my-plugin'')])) = Inr () \<and>
   issued (snd (ensurePluginsAreSynchronized demoProject
          (recordingToolchain (\<lambda>target. (takeWhile (\<lambda>c. c \<noteq> CHR ''@'') target, Registry target)))
          [(''cordova-plugin-camera'', ''1.2.0'')]
          (demoWorld [] [(''cordova-plugin-camera'', Registry ''cordova-plugin-camera@1.2.0''),
                         (''my-plugin'', Local ''/plugins/my-plugin'')])))
     = [PluginRm [''cordova-plugin-camera'', ''my-plugin''] \<lparr>silent = True, verbose = False\<rparr>,
        PluginAdd ''cordova-plugin-camera@1.2.0'' \<lparr>silent = True, verbose = False\<rparr>]"
  by code_simp

lemma scanPlugins_keeps_local:
  assumes "scanPlugins P installed plugins (changed, fromLocalPath) = Inr (changed', fromLocalPath')"
    and "fromLocalPath \<noteq> [] \<or> (\<exists>(name, version) \<in> set plugins. isUrlWithFileScheme P version)"
  shows "fromLocalPath' \<noteq> []"
  using assms
proof (induction plugins arbitrary: changed fromLocalPath)
  case Nil
  then show ?case by simp
next
  case (Cons entry plugins)
  obtain name version where entry: "entry = (name, version)" by force
  show ?case
  proof (cases "isUrlWithFileScheme P version")
    case True
    have "AList.update name version fromLocalPath \<noteq> []"
      by (cases fromLocalPath) auto
    with Cons.IH [of changed "AList.update name version fromLocalPath"] Cons.prems(1) True entry
    show ?thesis by simp
  next
    case False
    with Cons.prems(1) entry obtain v where v: "comparedVersion P version = Inr v"
      by (cases "comparedVersion P version") auto
    from Cons.prems(2) False entry have
      "fromLocalPath \<noteq> [] \<or> (\<exists>(name, version) \<in> set plugins. isUrlWithFileScheme P version)"
      by auto
    with Cons.IH Cons.prems(1) False entry v show ?thesis by simp
  qed
qed

lemma removePlugins_issued:
  "\<exists>cs. issued (snd (removePlugins P tool names w)) = issued w @ cs"
proof (cases "names = []")
  case True
  then show ?thesis by (simp add: removePlugins_def)
next
  case False
  then show ?thesis
    using issued_runCommands_raw [of P tool "PluginRm names (defaultOptions P)" "defaultEnv P"
        "Some (projectRoot P)" w]
    by (simp add: removePlugins_def)
qed

lemma installPlugins_issues:
  assumes "toInstall \<noteq> []" and "fst (installPlugins P tool toInstall w) = Inr ()"
  shows "\<exists>c cs. issued (snd (installPlugins P tool toInstall w)) = issued w @ c # cs"
proof -
  let ?N = "length toInstall"
  let ?w0 = "reportProgress (0, ?N) w"
  have run: "installPlugins P tool toInstall w = installEach P tool ?N 0 toInstall ?w0"
    by (simp add: installPlugins_def Let_def)
  from installEach_trace [of toInstall P tool ?N 0 ?w0] assms(2) obtain targets where loop:
    "map (\<lambda>(name, version). targetForPlugin P name version) (take ?N toInstall) = map Inr targets"
    "trace (snd (installEach P tool ?N 0 toInstall ?w0))
       = trace ?w0 @ installSteps P ?N 0 targets @ []"
    unfolding run by blast
  from loop(1) assms(1) obtain target targets' where "targets = target # targets'"
    by (cases targets) auto
  with loop(2) have "issued (snd (installPlugins P tool toInstall w))
      = issued w @ PluginAdd target (defaultOptions P)
          # commandsOf (installSteps P ?N 1 targets')"
    unfolding run by (simp add: issued_def commandsOf_append reportProgress_def)
  then show ?thesis by blast
qed

text \<open>
  For any toolchain and any state: with a desired plugin from a local path, a run that
  returns has issued at least one command. The second run of two is no exception.
\<close>

lemma local_path_plugin_is_always_installed:
  assumes "(name, version) \<in> set plugins" and "isUrlWithFileScheme P version"
    and "fst (ensurePluginsAreSynchronized P tool plugins w) = Inr ()"
  shows "\<exists>c cs. issued (snd (ensurePluginsAreSynchronized P tool plugins w)) = issued w @ c # cs"
proof -
  from assms(3) obtain installed where inst: "listInstalledPlugins w = Inr installed"
    by (cases "listInstalledPlugins w") (auto simp: ensurePluginsAreSynchronized_def)
  with assms(3) obtain changed fromLocalPath where
    scan: "scanPlugins P installed plugins (False, []) = Inr (changed, fromLocalPath)"
    by (cases "scanPlugins P installed plugins (False, [])")
      (auto simp: ensurePluginsAreSynchronized_def)
  from scanPlugins_keeps_local [OF scan] assms(1,2) have local: "fromLocalPath \<noteq> []" by blast
  let ?all = "changed \<or> someInstalledNotDesired plugins installed"
  let ?rm = "removePlugins P tool (pluginsToRemove ?all fromLocalPath installed) w"
  let ?toInstall = "pluginsToInstall ?all fromLocalPath plugins"
  obtain r1 w1 where rm: "?rm = (r1, w1)" by force
  from removePlugins_issued [of P tool "pluginsToRemove ?all fromLocalPath installed" w] rm
  obtain cs1 where cs1: "issued w1 = issued w @ cs1" by auto
  have run: "ensurePluginsAreSynchronized P tool plugins w
      = (case r1 of Inl e \<Rightarrow> (Inl e, w1) | Inr u \<Rightarrow> installPlugins P tool ?toInstall w1)"
    using inst scan local rm
    by (simp add: ensurePluginsAreSynchronized_def split: sum.splits)
  with assms(3) have batch: "ensurePluginsAreSynchronized P tool plugins w
      = installPlugins P tool ?toInstall w1"
    by (cases r1) auto
  have "?toInstall \<noteq> []"
    using local assms(1) by (auto simp: pluginsToInstall_def)
  from installPlugins_issues [OF this, of P tool w1] assms(3) batch
  obtain c cs where "issued (snd (installPlugins P tool ?toInstall w1)) = issued w1 @ c # cs"
    by auto
  with batch cs1 have "issued (snd (ensurePluginsAreSynchronized P tool plugins w))
      = issued w @ (cs1 @ c # cs)"
    by simp
  then show ?thesis by (cases cs1) auto
qed

text \<open>
  A run that finds every desired plugin installed with its normalised version, nothing
  else installed and no desired plugin from a local path returns with the state as it
  was.
\<close>

lemma run_in_sync_issues_nothing:
  assumes "listInstalledPlugins w = Inr installed"
    and "\<forall>(name, version) \<in> set plugins. \<not> isUrlWithFileScheme P version \<and>
           (\<exists>v. comparedVersion P version = Inr v \<and> map_of installed name = Some (Some v))"
    and "\<forall>name \<in> set (map fst installed). has plugins name"
  shows "ensurePluginsAreSynchronized P tool plugins w = (Inr (), w)"
proof -
  have scan: "scanPlugins P installed plugins' (changed, fromLocalPath)
      = Inr (changed, fromLocalPath)"
    if "set plugins' \<subseteq> set plugins" for plugins' changed fromLocalPath
    using that
  proof (induction plugins' arbitrary: changed)
    case Nil
    then show ?case by simp
  next
    case (Cons entry plugins')
    obtain name version where entry: "entry = (name, version)" by force
    with Cons.prems assms(2) obtain v where
      v: "\<not> isUrlWithFileScheme P version" "comparedVersion P version = Inr v"
         "map_of installed name = Some (Some v)"
      by auto
    from v(3) have "has installed name"
      by (auto simp: has_def dest: map_of_SomeD intro: rev_image_eqI)
    with Cons entry v show ?case by simp
  qed
  have "\<not> someInstalledNotDesired plugins installed"
    using assms(3) by (rule nothing_installed_beyond_desired)
  with assms(1) scan [of plugins False "[]"] show ?thesis
    by (simp add: ensurePluginsAreSynchronized_def)
qed


section \<open>Two runs with a toolchain that records what it is asked\<close>

lemma scanPlugins_no_local:
  assumes "\<forall>(name, version) \<in> set plugins.
      \<not> isUrlWithFileScheme P version \<and> (\<exists>v. comparedVersion P version = Inr v)"
  shows "\<exists>changed'. scanPlugins P installed plugins (changed, fromLocalPath)
      = Inr (changed', fromLocalPath)"
  using assms
proof (induction plugins arbitrary: changed)
  case Nil
  then show ?case by simp
next
  case (Cons entry plugins)
  obtain name version where entry: "entry = (name, version)" by force
  with Cons.prems obtain v where
    "\<not> isUrlWithFileScheme P version" "comparedVersion P version = Inr v"
    by auto
  with Cons entry show ?case by simp
qed

lemma recording_removePlugins:
  "\<exists>w'. removePlugins P (recordingToolchain found) names w = (Inr (), w') \<and>
        fetchJson (project w')
          = map_sum id (filter (\<lambda>(name, metadata). name \<notin> set names)) (fetchJson (project w))"
proof (cases "names = []")
  case True
  have "map_sum id (filter (\<lambda>(name, metadata). name \<notin> set names)) (fetchJson (project w))
      = fetchJson (project w)"
    using True by (cases "fetchJson (project w)") simp_all
  with True show ?thesis by (simp add: removePlugins_def)
next
  case False
  then show ?thesis
    by (simp add: removePlugins_def runCommands_result cordova_raw_def recordingToolchain_def
        chdir_def setEnv_def enterDirectory_def)
qed

lemma recording_addPlugin:
  assumes "targetForPlugin P name version = Inr target"
  shows "\<exists>w'. addPlugin P (recordingToolchain found) name version w = (Inr (), w') \<and>
        fetchJson (project w')
          = map_sum id (AList.update (fst (found target)) (snd (found target)))
              (fetchJson (project w))"
  using assms
  by (simp add: addPlugin_def runCommands_result cordova_raw_def recordingToolchain_def
      chdir_def setEnv_def enterDirectory_def)


lemma recording_installEach:
  assumes "fetchJson (project w) = Inr recorded"
    and "distinct (map fst toInstall)"
    and "\<forall>name \<in> set (map fst toInstall). name \<notin> fst ` set recorded"
    and "\<forall>(name, version) \<in> set toInstall. \<exists>target v.
           targetForPlugin P name version = Inr target \<and> comparedVersion P version = Inr v \<and>
           fst (found target) = name \<and> versionOfSource (snd (found target)) = Some v"
  shows "\<exists>w' added.
      installEach P (recordingToolchain found) pluginsCount completed toInstall w = (Inr (), w') \<and>
      fetchJson (project w') = Inr (recorded @ added) \<and>
      list_all2 (\<lambda>(name, version) (name', metadata). name' = name \<and>
          (\<exists>v. comparedVersion P version = Inr v \<and> versionOfSource metadata = Some v))
        toInstall added"
  using assms
proof (induction toInstall arbitrary: w recorded completed)
  case Nil
  then show ?case by simp
next
  case (Cons entry toInstall)
  let ?tool = "recordingToolchain found"
  obtain name version where entry: "entry = (name, version)" by force
  with Cons.prems(4) obtain target v where
    t: "targetForPlugin P name version = Inr target" "comparedVersion P version = Inr v"
       "fst (found target) = name" "versionOfSource (snd (found target)) = Some v"
    by auto
  from recording_addPlugin [OF t(1), of found w] obtain w' where
    add: "addPlugin P ?tool name version w = (Inr (), w')"
         "fetchJson (project w')
            = map_sum id (AList.update (fst (found target)) (snd (found target)))
                (fetchJson (project w))"
    by blast
  from Cons.prems(3) entry have "name \<notin> fst ` set recorded" by simp
  then have "AList.update name (snd (found target)) recorded
      = recorded @ [(name, snd (found target))]"
    by (rule update_new_key)
  with add(2) Cons.prems(1) t(3) have
    rec: "fetchJson (project (reportProgress (Suc completed, pluginsCount) w'))
      = Inr (recorded @ [(name, snd (found target))])"
    by (simp add: reportProgress_def)
  have dist: "distinct (map fst toInstall)" using Cons.prems(2) by simp
  have fresh: "\<forall>name' \<in> set (map fst toInstall).
      name' \<notin> fst ` set (recorded @ [(name, snd (found target))])"
    using Cons.prems(2,3) entry by auto
  have asked: "\<forall>(name, version) \<in> set toInstall. \<exists>target v.
      targetForPlugin P name version = Inr target \<and> comparedVersion P version = Inr v \<and>
      fst (found target) = name \<and> versionOfSource (snd (found target)) = Some v"
    using Cons.prems(4) by simp
  from Cons.IH [OF rec dist fresh asked, of "Suc completed"] obtain w'' added where
    ih: "installEach P ?tool pluginsCount (Suc completed) toInstall
           (reportProgress (Suc completed, pluginsCount) w') = (Inr (), w'')"
        "fetchJson (project w'') = Inr ((recorded @ [(name, snd (found target))]) @ added)"
        "list_all2 (\<lambda>(name, version) (name', metadata). name' = name \<and>
            (\<exists>v. comparedVersion P version = Inr v \<and> versionOfSource metadata = Some v))
          toInstall added"
    by blast
  have "installEach P ?tool pluginsCount completed (entry # toInstall) w = (Inr (), w'')"
    using entry add(1) ih(1) by simp
  moreover have "fetchJson (project w'') = Inr (recorded @ ((name, snd (found target)) # added))"
    using ih(2) by simp
  moreover have "list_all2 (\<lambda>(name, version) (name', metadata). name' = name \<and>
            (\<exists>v. comparedVersion P version = Inr v \<and> versionOfSource metadata = Some v))
          (entry # toInstall) ((name, snd (found target)) # added)"
    using ih(3) entry t(2,4) by simp
  ultimately show ?case by blast
qed

lemma recorded_versions:
  assumes "list_all2 (\<lambda>(name, version) (name', metadata). name' = name \<and>
            (\<exists>v. comparedVersion P version = Inr v \<and> versionOfSource metadata = Some v))
          plugins added"
    and "distinct (map fst plugins)"
  shows "map fst added = map fst plugins \<and>
         (\<forall>(name, version) \<in> set plugins. \<exists>v. comparedVersion P version = Inr v \<and>
            map_of (map (\<lambda>(name, metadata). (name, versionOfSource metadata)) added) name
              = Some (Some v))"
  using assms
proof (induction plugins added rule: list_all2_induct)
  case Nil
  then show ?case by simp
next
  case (Cons entry plugins metadata added)
  obtain name version where entry: "entry = (name, version)" by force
  obtain name' src where metadata: "metadata = (name', src)" by force
  from Cons.hyps(1) entry metadata obtain v where
    v: "name' = name" "comparedVersion P version = Inr v" "versionOfSource src = Some v"
    by auto
  from Cons.prems entry have new: "name \<notin> fst ` set plugins" and dist: "distinct (map fst plugins)"
    by simp_all
  from Cons.IH [OF dist] have
    ih: "map fst added = map fst plugins"
        "\<forall>(name, version) \<in> set plugins. \<exists>v. comparedVersion P version = Inr v \<and>
            map_of (map (\<lambda>(name, metadata). (name, versionOfSource metadata)) added) name
              = Some (Some v)"
    by simp_all
  have names: "map fst (metadata # added) = map fst (entry # plugins)"
    using ih(1) entry metadata v(1) by simp
  have "\<exists>v. comparedVersion P version' = Inr v \<and>
            map_of (map (\<lambda>(name, metadata). (name, versionOfSource metadata)) (metadata # added))
              name'' = Some (Some v)"
    if "(name'', version') \<in> set (entry # plugins)" for name'' version'
  proof (cases "(name'', version') = entry")
    case True
    with entry metadata v show ?thesis by simp
  next
    case False
    with that have mem: "(name'', version') \<in> set plugins" by simp
    with new have "name'' \<noteq> name" by force
    with ih(2) mem metadata v(1) show ?thesis by auto
  qed
  with names show ?case by blast
qed


text \<open>
  C1, as amended. Let no desired plugin be from a local path, and let the toolchain carry
  out every remove and add and record each plugin it adds under the desired name and with
  the normalised version of the desired specifier. Then a first run returns, and a second
  run with the same desired plugins, on the state the first one left, returns with that
  state as it is: it issues no remove and no add.
\<close>

theorem second_run_issues_nothing:
  assumes "fetchJson (project w) = Inr pluginsMetadata"
    and "distinct (map fst plugins)"
    and "\<forall>(name, version) \<in> set plugins. \<not> isUrlWithFileScheme P version \<and>
           (\<exists>target v.
              targetForPlugin P name version = Inr target \<and> comparedVersion P version = Inr v \<and>
              fst (found target) = name \<and> versionOfSource (snd (found target)) = Some v)"
    and "ensurePluginsAreSynchronized P (recordingToolchain found) plugins w = (r1, w1)"
  shows "r1 = Inr () \<and>
         ensurePluginsAreSynchronized P (recordingToolchain found) plugins w1 = (Inr (), w1)"
proof -
  let ?tool = "recordingToolchain found"
  let ?versions = "map (\<lambda>(name, metadata). (name, versionOfSource metadata))"
  let ?installed = "?versions pluginsMetadata"
  have inst: "listInstalledPlugins w = Inr ?installed"
    using assms(1) by (simp add: listInstalledPlugins_def)
  have normal: "\<forall>(name, version) \<in> set plugins.
      \<not> isUrlWithFileScheme P version \<and> (\<exists>v. comparedVersion P version = Inr v)"
    using assms(3) by fast
  have asked: "\<forall>(name, version) \<in> set plugins. \<exists>target v.
      targetForPlugin P name version = Inr target \<and> comparedVersion P version = Inr v \<and>
      fst (found target) = name \<and> versionOfSource (snd (found target)) = Some v"
    using assms(3) by fast
  from scanPlugins_no_local [OF normal, of ?installed False "[]"] obtain changed where
    scan: "scanPlugins P ?installed plugins (False, []) = Inr (changed, [])"
    by blast
  show ?thesis
  proof (cases "changed \<or> someInstalledNotDesired plugins ?installed")
    case False
    with inst scan have "ensurePluginsAreSynchronized P ?tool plugins w = (Inr (), w)"
      by (simp add: ensurePluginsAreSynchronized_def)
    with assms(4) show ?thesis by simp
  next
    case True
    let ?N = "length plugins"
    from recording_removePlugins [of P found "map fst ?installed" w] obtain wr where
      rm: "removePlugins P ?tool (map fst ?installed) w = (Inr (), wr)"
          "fetchJson (project wr)
             = map_sum id (filter (\<lambda>(name, metadata). name \<notin> set (map fst ?installed)))
                 (fetchJson (project w))"
      by blast
    have "filter (\<lambda>(name, metadata). name \<notin> set (map fst ?installed)) pluginsMetadata = []"
      by (auto simp: filter_empty_conv intro: rev_image_eqI)
    with rm(2) assms(1) have
      cleared: "fetchJson (project (reportProgress (0, ?N) wr)) = Inr []"
      by (simp add: reportProgress_def)
    have fresh: "\<forall>name \<in> set (map fst plugins). name \<notin> fst ` set []" by simp
    from recording_installEach [OF cleared assms(2) fresh asked, of ?N 0] obtain w' added where
      batch: "installEach P ?tool ?N 0 plugins (reportProgress (0, ?N) wr) = (Inr (), w')"
             "fetchJson (project w') = Inr ([] @ added)"
             "list_all2 (\<lambda>(name, version) (name', metadata). name' = name \<and>
                 (\<exists>v. comparedVersion P version = Inr v \<and> versionOfSource metadata = Some v))
               plugins added"
      by blast
    have first: "ensurePluginsAreSynchronized P ?tool plugins w = (Inr (), w')"
      using inst scan True rm(1) batch(1)
      by (simp add: ensurePluginsAreSynchronized_def pluginsToRemove_def pluginsToInstall_def
          installPlugins_def Let_def)
    with assms(4) have r1: "r1 = Inr ()" and w1: "w1 = w'" by simp_all
    from recorded_versions [OF batch(3) assms(2)] have
      names: "map fst added = map fst plugins"
      and versions: "\<forall>(name, version) \<in> set plugins. \<exists>v. comparedVersion P version = Inr v \<and>
            map_of (?versions added) name = Some (Some v)"
      by simp_all
    have a: "listInstalledPlugins w' = Inr (?versions added)"
      using batch(2) by (simp add: listInstalledPlugins_def)
    have b: "\<forall>(name, version) \<in> set plugins. \<not> isUrlWithFileScheme P version \<and>
        (\<exists>v. comparedVersion P version = Inr v \<and> map_of (?versions added) name = Some (Some v))"
      using normal versions by fast
    have "map fst (?versions added) = map fst plugins"
      using names by (simp add: comp_def case_prod_unfold)
    then have c: "\<forall>name \<in> set (map fst (?versions added)). has plugins name"
      by (simp add: has_def)
    from run_in_sync_issues_nothing [OF a b c, of ?tool] r1 w1 show ?thesis by simp
  qed
qed

theorem second_run_issues_nothing_witness:
  "ensurePluginsAreSynchronized demoProject
       (recordingToolchain (\<lambda>target. (takeWhile (\<lambda>c. c \<noteq> CHR ''@'') target, Registry target)))
       [(''cordova-plugin-camera'', ''1.2.0''), (''cordova-plugin-device'', ''1.0.1'')]
       (demoWorld [] [(''cordova-plugin-camera'', Registry ''cordova-plugin-camera@1.1.0'')])
   = (Inr (),
      (demoWorld [] [(''cordova-plugin-camera'', Registry ''cordova-plugin-camera@1.2.0''),
                     (''cordova-plugin-device'', Registry ''cordova-plugin-device@1.0.1'')])
        \<lparr>spawnEnv := defaultEnv demoProject,
         trace := [Issued (PluginRm [''cordova-plugin-camera'']
                             \<lparr>silent = True, verbose = False\<rparr>),
                   Progress 0 2,
                   Issued (PluginAdd ''cordova-plugin-camera@1.2.0''
                             \<lparr>silent = True, verbose = False\<rparr>),
                   Progress 1 2,
                   Issued (PluginAdd ''cordova-plugin-device@1.0.1''
                             \<lparr>silent = True, verbose = False\<rparr>),
                   Progress 2 2]\<rparr>) \<and>
   ensurePluginsAreSynchronized demoProject
       (recordingToolchain (\<lambda>target. (takeWhile (\<lambda>c. c \<noteq> CHR ''@'') target, Registry target)))
       [(''cordova-plugin-camera'', ''1.2.0''), (''cordova-plugin-device'', ''1.0.1'')]
       (snd (ensurePluginsAreSynchronized demoProject
          (recordingToolchain (\<lambda>target. (takeWhile (\<lambda>c. c \<noteq> CHR ''@'') target, Registry target)))
          [(''cordova-plugin-camera'', ''1.2.0''), (''cordova-plugin-device'', ''1.0.1'')]
          (demoWorld [] [(''cordova-plugin-camera'', Registry ''cordova-plugin-camera@1.1.0'')])))
   = (Inr (),
      snd (ensurePluginsAreSynchronized demoProject
          (recordingToolchain (\<lambda>target. (takeWhile (\<lambda>c. c \<noteq> CHR ''@'') target, Registry target)))
          [(''cordova-plugin-camera'', ''1.2.0''), (''cordova-plugin-device'', ''1.0.1'')]
          (demoWorld [] [(''cordova-plugin-camera'', Registry ''cordova-plugin-camera@1.1.0'')])))"
proof -
  let ?found = "\<lambda>target. (takeWhile (\<lambda>c. c \<noteq> CHR ''@'') target, Registry target)"
  let ?tool = "recordingToolchain ?found"
  let ?plugins = "[(''cordova-plugin-camera'', ''1.2.0''), (''cordova-plugin-device'', ''1.0.1'')]"
  let ?w = "demoWorld [] [(''cordova-plugin-camera'', Registry ''cordova-plugin-camera@1.1.0'')]"
  let ?w1 = "(demoWorld [] [(''cordova-plugin-camera'', Registry ''cordova-plugin-camera@1.2.0''),
                            (''cordova-plugin-device'', Registry ''cordova-plugin-device@1.0.1'')])
        \<lparr>spawnEnv := defaultEnv demoProject,
         trace := [Issued (PluginRm [''cordova-plugin-camera'']
                             \<lparr>silent = True, verbose = False\<rparr>),
                   Progress 0 2,
                   Issued (PluginAdd ''cordova-plugin-camera@1.2.0''
                             \<lparr>silent = True, verbose = False\<rparr>),
                   Progress 1 2,
                   Issued (PluginAdd ''cordova-plugin-device@1.0.1''
                             \<lparr>silent = True, verbose = False\<rparr>),
                   Progress 2 2]\<rparr>"
  have a: "fetchJson (project ?w)
      = Inr [(''cordova-plugin-camera'', Registry ''cordova-plugin-camera@1.1.0'')]"
    by (simp add: demoWorld_def)
  have b: "distinct (map fst ?plugins)" by simp
  have "list_all (\<lambda>(name, version). \<not> isUrlWithFileScheme demoProject version
          \<and> targetForPlugin demoProject name version = Inr (name @ ''@'' @ version)
          \<and> comparedVersion demoProject version = Inr version
          \<and> fst (?found (name @ ''@'' @ version)) = name
          \<and> versionOfSource (snd (?found (name @ ''@'' @ version))) = Some version) ?plugins"
    by code_simp
  then have c: "\<forall>(name, version) \<in> set ?plugins. \<not> isUrlWithFileScheme demoProject version \<and>
      (\<exists>target v.
         targetForPlugin demoProject name version = Inr target
         \<and> comparedVersion demoProject version = Inr v
         \<and> fst (?found target) = name \<and> versionOfSource (snd (?found target)) = Some v)"
    by simp
  have first: "ensurePluginsAreSynchronized demoProject ?tool ?plugins ?w = (Inr (), ?w1)"
    by code_simp
  from second_run_issues_nothing [OF a b c first]
  have "ensurePluginsAreSynchronized demoProject ?tool ?plugins ?w1 = (Inr (), ?w1)"
    by simp
  with first show ?thesis by simp
qed

text \<open>
  The claim fails for a desired plugin from a local path: the first run, on a project
  without plugins, adds it, and the second run, on the state the first one left, with the
  plugin recorded, removes it and adds it again.
\<close>

theorem second_run_issues_nothing_counterexample:
  "fst (ensurePluginsAreSynchronized demoProject
          (recordingToolchain (\<lambda>target. (''my-plugin'', Local target)))
          [(''my-plugin'', ''file:///plugins/my-plugin'')] (demoWorld [] [])) = Inr () \<and>
   issued (snd (ensurePluginsAreSynchronized demoProject
          (recordingToolchain (\<lambda>target. (''my-plugin'', Local target)))
          [(''my-plugin'', ''file:///plugins/my-plugin'')] (demoWorld [] [])))
     = [PluginAdd ''/plugins/my-plugin'' \<lparr>silent = True, verbose = False\<rparr>] \<and>
   fst (ensurePluginsAreSynchronized demoProject
          (recordingToolchain (\<lambda>target. (''my-plugin'', Local target)))
          [(''my-plugin'', ''file:///plugins/my-plugin'')]
          (snd (ensurePluginsAreSynchronized demoProject
             (recordingToolchain (\<lambda>target. (''my-plugin'', Local target)))
             [(''my-plugin'', ''file:///plugins/my-plugin'')] (demoWorld [] [])))) = Inr () \<and>
   issued (snd (ensurePluginsAreSynchronized demoProject
          (recordingToolchain (\<lambda>target. (''my-plugin'', Local target)))
          [(''my-plugin'', ''file:///plugins/my-plugin'')]
          (snd (ensurePluginsAreSynchronized demoProject
             (recordingToolchain (\<lambda>target. (''my-plugin'', Local target)))
             [(''my-plugin'', ''file:///plugins/my-plugin'')] (demoWorld [] [])))))
     = [PluginAdd ''/plugins/my-plugin'' \<lparr>silent = True, verbose = False\<rparr>,
        PluginRm [''my-plugin''] \<lparr>silent = True, verbose = False\<rparr>,
        PluginAdd ''/plugins/my-plugin'' \<lparr>silent = True, verbose = False\<rparr>]"
  by code_simp

end
